theory Spec2Isabelle
  imports
    Main
    "HOL-Library.Word"
    "HOL-Library.Char_ord"
    "HOL-Library.List_Lexorder"
begin

section \<open>Values that cross the HTTP boundary\<close>

text \<open>
  A Python \<open>bytes\<close> object is a list of 8-bit words; a Python \<open>str\<close> is a
  \<open>string\<close>.  The strings the handlers build themselves are ASCII.
\<close>

type_synonym byte = "8 word"
type_synonym bytes = "byte list"

text \<open>
  The exceptions the handlers tell apart.  \<open>app/api/routes-deepseek.py\<close> has one
  \<open>except UnidentifiedImageError\<close> clause; every other clause is
  \<open>except Exception\<close> (or bare), so every other exception class a library raises is
  \<open>Exception\<close> here.  The argument is the text \<open>str(e)\<close> returns.
\<close>

datatype exn = UnidentifiedImageError string | Exception string

fun str :: "exn \<Rightarrow> string" where
  "str (UnidentifiedImageError t) = t"
| "str (Exception t) = t"

text \<open>The JSON bodies: a dict literal of the source is a \<open>JObj\<close> with its keys in order.\<close>

datatype json = JNull | JStr string | JList "json list" | JObj "(string \<times> json) list"

fun field :: "string \<Rightarrow> json \<Rightarrow> json option" where
  "field k (JObj kvs) = map_of kvs k"
| "field k _ = None"

text \<open>
  What a handler ends with: \<open>return JSONResponse(content=...)\<close> (status 200),
  \<open>raise HTTPException(status_code=..., detail=...)\<close>, or an exception that no
  \<open>except\<close> clause of the handler catches and that leaves it.
\<close>

datatype response = JSONResponse json | HTTPException nat json | Unhandled exn

fun status_code :: "response \<Rightarrow> nat option" where
  "status_code (JSONResponse _) = Some 200"
| "status_code (HTTPException c _) = Some c"
| "status_code (Unhandled _) = None"

section \<open>Base64 (\<open>base64.b64encode\<close>, RFC 4648 section 4)\<close>

definition b64alphabet :: string where
  "b64alphabet = ''ABCDEFGHIJKLMNOPQRSTUVWXYZabcdefghijklmnopqrstuvwxyz0123456789+/''"

definition b64char :: "nat \<Rightarrow> char" where
  "b64char i = b64alphabet ! (i mod 64)"

definition b64index :: "char \<Rightarrow> nat option" where
  "b64index c = map_of (zip b64alphabet [0..<64]) c"

text \<open>
  \<open>base64.b64encode(file_data)\<close>: three bytes give four characters, a tail of one or
  two bytes is padded with \<open>=\<close>.  The result is ASCII, so the
  \<open>.decode('utf-8')\<close> that follows it in the source changes nothing.
\<close>

fun b64encode :: "bytes \<Rightarrow> string" where
  "b64encode (a # b # c # rest) =
     [b64char (unat a div 4),
      b64char ((unat a mod 4) * 16 + unat b div 16),
      b64char ((unat b mod 16) * 4 + unat c div 64),
      b64char (unat c mod 64)] @ b64encode rest"
| "b64encode [a, b] =
     [b64char (unat a div 4),
      b64char ((unat a mod 4) * 16 + unat b div 16),
      b64char ((unat b mod 16) * 4),
      CHR ''='']"
| "b64encode [a] =
     [b64char (unat a div 4),
      b64char ((unat a mod 4) * 16),
      CHR ''='', CHR ''='']"
| "b64encode [] = []"

text \<open>
  The decoder of RFC 4648: groups of four characters of the alphabet, the last group
  possibly padded.  It is the inverse a client applies to the string
  \<open>/file-to-base64\<close> returns.
\<close>

definition dec4 :: "char \<Rightarrow> char \<Rightarrow> char \<Rightarrow> char \<Rightarrow> bytes option" where
  "dec4 c1 c2 c3 c4 =
     (case (b64index c1, b64index c2, b64index c3, b64index c4) of
        (Some i1, Some i2, Some i3, Some i4) \<Rightarrow>
          Some [of_nat (i1 * 4 + i2 div 16),
                of_nat ((i2 mod 16) * 16 + i3 div 4),
                of_nat ((i3 mod 4) * 64 + i4)]
      | _ \<Rightarrow> None)"

definition dec3 :: "char \<Rightarrow> char \<Rightarrow> char \<Rightarrow> bytes option" where
  "dec3 c1 c2 c3 =
     (case (b64index c1, b64index c2, b64index c3) of
        (Some i1, Some i2, Some i3) \<Rightarrow>
          Some [of_nat (i1 * 4 + i2 div 16), of_nat ((i2 mod 16) * 16 + i3 div 4)]
      | _ \<Rightarrow> None)"

definition dec2 :: "char \<Rightarrow> char \<Rightarrow> bytes option" where
  "dec2 c1 c2 =
     (case (b64index c1, b64index c2) of
        (Some i1, Some i2) \<Rightarrow> Some [of_nat (i1 * 4 + i2 div 16)]
      | _ \<Rightarrow> None)"

fun rfc4648_decode :: "string \<Rightarrow> bytes option" where
  "rfc4648_decode [] = Some []"
| "rfc4648_decode [c1, c2, c3, c4] =
     (if c3 = CHR ''='' \<and> c4 = CHR ''='' then dec2 c1 c2
      else if c4 = CHR ''='' then dec3 c1 c2 c3
      else dec4 c1 c2 c3 c4)"
| "rfc4648_decode (c1 # c2 # c3 # c4 # rest) =
     (case dec4 c1 c2 c3 c4 of
        None \<Rightarrow> None
      | Some bs \<Rightarrow> (case rfc4648_decode rest of None \<Rightarrow> None | Some bs' \<Rightarrow> Some (bs @ bs')))"
| "rfc4648_decode _ = None"

section \<open>The file suffix derived from the detected format\<close>

text \<open>\<open>str.lower()\<close> on the ASCII format names the image library reports.\<close>

definition lower_char :: "char \<Rightarrow> char" where
  "lower_char c =
     (case map_of (zip ''ABCDEFGHIJKLMNOPQRSTUVWXYZ'' ''abcdefghijklmnopqrstuvwxyz'') c of
        Some l \<Rightarrow> l
      | None \<Rightarrow> c)"

definition lower :: "string \<Rightarrow> string" where
  "lower s = map lower_char s"

text \<open>
  \<open>suffix = f".{image.format.lower()}" if image.format else ""\<close>
  (routes-deepseek.py lines 121, 194, 268).  \<open>image.format\<close> is a string or
  \<open>None\<close>; both \<open>None\<close> and the empty string are falsy.
\<close>

definition suffix_of :: "string option \<Rightarrow> string" where
  "suffix_of fmt =
     (case fmt of
        None \<Rightarrow> ''''
      | Some f \<Rightarrow> if f = '''' then '''' else ''.'' @ lower f)"

section \<open>The schema declarations (\<open>app/api/schemas.py\<close>)\<close>

text \<open>
  \<open>Language\<close> is an \<open>Enum\<close> whose declaration is not among the source files; the
  handlers use it through \<open>Language.Farsi\<close>, \<open>Language(v)\<close>, iteration,
  \<open>.name\<close> and \<open>.value\<close>.  The declaration is a parameter: the list of the
  names it declares with their values, in declaration order.
\<close>

record Language_member =
  name :: string
  val :: string

type_synonym Language_enum = "Language_member list"

text \<open>
  \<open>Language.Farsi\<close> and the like.  A name declared with the value of an earlier
  member is an alias of that member: the attribute is then the earlier member, with
  the earlier member's \<open>.name\<close>.  So the attribute is the first member that has
  the value declared under the name.
\<close>

definition Language_getattr :: "Language_enum \<Rightarrow> string \<Rightarrow> Language_member option" where
  "Language_getattr L n =
     (case find (\<lambda>m. name m = n) L of
        None \<Rightarrow> None
      | Some declared \<Rightarrow> find (\<lambda>m. val m = val declared) L)"

text \<open>
  \<open>Language(v)\<close>: the first member whose value is \<open>v\<close>; \<open>None\<close> is the
  \<open>ValueError\<close> the enum raises for a value of no member.
\<close>

definition Language_call :: "Language_enum \<Rightarrow> string \<Rightarrow> Language_member option" where
  "Language_call L v = find (\<lambda>m. val m = v) L"

text \<open>
  An \<open>UploadFile\<close>: its declared file name and what \<open>await file.read()\<close> gives.
  The two JSON bodies: \<open>OCRJsonRequestD\<close> has \<open>base64_string\<close>,
  \<open>OCRJsonRequest\<close> has \<open>language\<close> as well.
\<close>

record UploadFile =
  filename :: "string option"
  read :: "exn + bytes"

record OCRJsonRequestD =
  base64_string :: string

record OCRJsonRequest = OCRJsonRequestD +
  language :: string

section \<open>The libraries and the state outside the handlers\<close>

text \<open>
  The keyword arguments of \<open>self.model.infer(...)\<close> (engine.py lines 34--44), the
  tokenizer object apart.
\<close>

record infer_args =
  prompt :: string
  image_file :: string
  output_path :: string
  base_size :: nat
  image_size :: nat
  crop_mode :: bool
  save_results :: bool
  test_compress :: bool

text \<open>
  The libraries are parameters.  \<open>'img\<close> is the image object of \<open>PIL\<close>,
  \<open>'x\<close> the state the engines keep outside the handlers (the OCR process, the GPU,
  the generator of temporary names, the addresses of the objects of a request).  A
  call that can raise returns \<open>exn + _\<close>.  \<open>Image.open\<close> reads that state:
  the text of the exception it raises names the per-request \<open>BytesIO\<close> object
  by its address.  \<open>base64.b64decode\<close> and \<open>image.verify\<close> are functions of
  their argument.
  \<open>model_infer\<close> gets the bytes of the file at \<open>image_file\<close> (if it exists)
  and returns the files it wrote below \<open>output_path\<close>.
  \<open>NamedTemporaryFile\<close> and \<open>TemporaryDirectory\<close> return the fresh name.
\<close>

record ('img, 'x) libs =
  b64decode :: "string \<Rightarrow> exn + bytes"
  Image_open :: "'x \<Rightarrow> bytes \<Rightarrow> (exn + 'img) \<times> 'x"
  verify :: "'img \<Rightarrow> exn + unit"
  format :: "'img \<Rightarrow> string option"
  image_to_string :: "'x \<Rightarrow> 'img \<Rightarrow> string \<Rightarrow> (exn + string) \<times> 'x"
  empty_cache :: "'x \<Rightarrow> 'x"
  NamedTemporaryFile :: "'x \<Rightarrow> string \<Rightarrow> (exn + string) \<times> 'x"
  tmp_write :: "'x \<Rightarrow> string \<Rightarrow> bytes \<Rightarrow> (exn + unit) \<times> 'x"
  TemporaryDirectory :: "'x \<Rightarrow> (exn + string) \<times> 'x"
  model_infer :: "'x \<Rightarrow> infer_args \<Rightarrow> bytes option \<Rightarrow> ((exn + unit) \<times> (string \<times> bytes) list) \<times> 'x"
  utf8_decode :: "bytes \<Rightarrow> exn + string"

text \<open>Every library call a handler makes is recorded with its outcome, oldest first.\<close>

datatype 'img call =
    CallRead
  | CallB64decode string
  | CallImageOpen bytes
  | CallVerify 'img
  | CallImageToString 'img string
  | CallEmptyCache
  | CallNamedTemporaryFile string
  | CallWrite string
  | CallTemporaryDirectory
  | CallModelInfer infer_args
  | CallOpenRead string

datatype outcome = Returned | Raised exn

fun outcome_of :: "exn + 'a \<Rightarrow> outcome" where
  "outcome_of (Inl e) = Raised e"
| "outcome_of (Inr _) = Returned"

text \<open>
  The state of the process and its machine: the engines' own state, the calls made so
  far, the temporary files (path to content) and temporary directories (path to
  entries) on disk, and \<open>model_lock\<close> (routes-deepseek.py line 21).
\<close>

record ('img, 'x) world =
  ext :: 'x
  trace :: "('img call \<times> outcome) list"
  files :: "string \<rightharpoonup> bytes"
  dirs :: "string \<rightharpoonup> (string \<rightharpoonup> bytes)"
  locked :: bool

definition pure_call ::
  "'img call \<Rightarrow> exn + 'a \<Rightarrow> ('img, 'x) world \<Rightarrow> (exn + 'a) \<times> ('img, 'x) world" where
  "pure_call c r w = (r, w\<lparr>trace := trace w @ [(c, outcome_of r)]\<rparr>)"

definition ext_call ::
  "'img call \<Rightarrow> ('x \<Rightarrow> (exn + 'a) \<times> 'x) \<Rightarrow> ('img, 'x) world \<Rightarrow> (exn + 'a) \<times> ('img, 'x) world" where
  "ext_call c f w =
     (case f (ext w) of
        (r, x) \<Rightarrow> (r, w\<lparr>ext := x, trace := trace w @ [(c, outcome_of r)]\<rparr>))"

text \<open>
  The calls of the engines: \<open>pytesseract.image_to_string\<close> on the classical
  service, and everything \<open>DeepSeekOCR.infer\<close> does on the transformer service.
\<close>

definition is_engine_call :: "'img call \<times> outcome \<Rightarrow> bool" where
  "is_engine_call ev =
     (case fst ev of
        CallImageToString _ _ \<Rightarrow> True
      | CallEmptyCache \<Rightarrow> True
      | CallTemporaryDirectory \<Rightarrow> True
      | CallModelInfer _ \<Rightarrow> True
      | CallOpenRead _ \<Rightarrow> True
      | _ \<Rightarrow> False)"

text \<open>The dict literal that every \<open>except Exception as e\<close> clause builds.\<close>

definition message_error :: "string \<Rightarrow> exn \<Rightarrow> json" where
  "message_error m e = JObj [(''message'', JStr m), (''error'', JStr (str e))]"

section \<open>\<open>/file-to-base64\<close> (both services)\<close>

text \<open>
  routes-tesseract.py lines 51--84 and routes-deepseek.py lines 56--89 are the same
  text.  \<open>file.filename\<close> may be \<open>None\<close>, which JSON renders as \<open>null\<close>.
\<close>

definition file_to_base64 ::
  "UploadFile \<Rightarrow> ('img, 'x) world \<Rightarrow> response \<times> ('img, 'x) world" where
  "file_to_base64 file w =
     (case pure_call CallRead (read file) w of
        (Inl e, w1) \<Rightarrow> (HTTPException 400 (JStr ''Could not process the uploaded file.''), w1)
      | (Inr file_data, w1) \<Rightarrow>
          (JSONResponse (JObj
             [(''filename'', (case filename file of None \<Rightarrow> JNull | Some f \<Rightarrow> JStr f)),
              (''base64_string'', JStr (b64encode file_data))]), w1))"

section \<open>The classical service (\<open>app/api/routes-tesseract.py\<close>)\<close>

text \<open>Lines 127--136, 185--194 and 256--265: the engine call and its \<open>except\<close>.\<close>

definition ocr_or_500 ::
  "('img, 'x) libs \<Rightarrow> 'img \<Rightarrow> string \<Rightarrow> ('img, 'x) world \<Rightarrow> (response + string) \<times> ('img, 'x) world" where
  "ocr_or_500 E img lang w =
     (case ext_call (CallImageToString img lang) (\<lambda>x. image_to_string E x img lang) w of
        (Inl e, w1) \<Rightarrow> (Inl (HTTPException 500 (message_error ''Error during OCR'' e)), w1)
      | (Inr extracted_text, w1) \<Rightarrow> (Inr extracted_text, w1))"

definition ocr_result :: "string \<Rightarrow> string \<Rightarrow> response" where
  "ocr_result language_name extracted_text =
     JSONResponse (JObj [(''language'', JStr language_name),
                         (''extracted_text'', JStr extracted_text)])"

text \<open>
  \<open>/ocr\<close>, lines 94--143.  The form field \<open>language\<close> is optional; its default
  \<open>Language.Farsi\<close> is evaluated when the function is defined, and a schema
  without that member raises there (\<open>AttributeError\<close>), which is the unhandled
  exception of the first line.
\<close>

definition perform_ocr_tesseract ::
  "Language_enum \<Rightarrow> ('img, 'x) libs \<Rightarrow> UploadFile \<Rightarrow> Language_member option \<Rightarrow>
   ('img, 'x) world \<Rightarrow> response \<times> ('img, 'x) world" where
  "perform_ocr_tesseract L E file language_field w =
     (case Language_getattr L ''Farsi'' of
        None \<Rightarrow> (Unhandled (Exception ''Farsi''), w)
      | Some Farsi \<Rightarrow>
          (let lang = (case language_field of None \<Rightarrow> Farsi | Some l \<Rightarrow> l) in
           case pure_call CallRead (read file) w of
             (Inl e, w1) \<Rightarrow>
               (HTTPException 400 (message_error ''Could not process the uploaded file.'' e), w1)
           | (Inr image_data, w1) \<Rightarrow>
               (case ext_call (CallImageOpen image_data) (\<lambda>x. Image_open E x image_data) w1 of
                  (Inl e, w2) \<Rightarrow>
                    (HTTPException 400
                       (message_error ''Could not process the uploaded file.'' e), w2)
                | (Inr img, w2) \<Rightarrow>
                    (case ocr_or_500 E img (val lang) w2 of
                       (Inl failure, w3) \<Rightarrow> (failure, w3)
                     | (Inr extracted_text, w3) \<Rightarrow>
                         (ocr_result (name lang) extracted_text, w3)))))"

text \<open>\<open>/ocr_base64\<close>, lines 152--201.\<close>

definition perform_ocr_base46_tesseract ::
  "Language_enum \<Rightarrow> ('img, 'x) libs \<Rightarrow> string \<Rightarrow> Language_member option \<Rightarrow>
   ('img, 'x) world \<Rightarrow> response \<times> ('img, 'x) world" where
  "perform_ocr_base46_tesseract L E base64_str language_field w =
     (case Language_getattr L ''Farsi'' of
        None \<Rightarrow> (Unhandled (Exception ''Farsi''), w)
      | Some Farsi \<Rightarrow>
          (let lang = (case language_field of None \<Rightarrow> Farsi | Some l \<Rightarrow> l) in
           case pure_call (CallB64decode base64_str) (b64decode E base64_str) w of
             (Inl e, w1) \<Rightarrow>
               (HTTPException 400 (message_error ''Could not process the base64 string.'' e), w1)
           | (Inr image_data, w1) \<Rightarrow>
               (case ext_call (CallImageOpen image_data) (\<lambda>x. Image_open E x image_data) w1 of
                  (Inl e, w2) \<Rightarrow>
                    (HTTPException 400
                       (message_error ''Could not process the base64 string.'' e), w2)
                | (Inr img, w2) \<Rightarrow>
                    (case ocr_or_500 E img (val lang) w2 of
                       (Inl failure, w3) \<Rightarrow> (failure, w3)
                     | (Inr extracted_text, w3) \<Rightarrow>
                         (ocr_result (name lang) extracted_text, w3)))))"

text \<open>
  \<open>/ocr_base64_json\<close>, lines 210--272.  \<open>allowed_langs\<close> is the set of the
  members' values and \<open>sorted\<close> lists it in ascending order.  The last line calls
  \<open>Language(ocr_language)\<close> a second time.
\<close>

definition perform_ocr_base64_json_tesseract ::
  "Language_enum \<Rightarrow> ('img, 'x) libs \<Rightarrow> OCRJsonRequest \<Rightarrow>
   ('img, 'x) world \<Rightarrow> response \<times> ('img, 'x) world" where
  "perform_ocr_base64_json_tesseract L E request w =
     (let base64_str = base64_string request;
          ocr_language = language request;
          allowed_langs = set (map val L)
      in case Language_call L ocr_language of
           None \<Rightarrow>
             (HTTPException 422
                (JObj [(''invalid language entry'', JStr ocr_language),
                       (''allowed languages'',
                          JList (map JStr (sorted_list_of_set allowed_langs)))]), w)
         | Some _ \<Rightarrow>
             (case pure_call (CallB64decode base64_str) (b64decode E base64_str) w of
                (Inl e, w1) \<Rightarrow>
                  (HTTPException 400
                     (message_error ''Could not process the base64 string.'' e), w1)
              | (Inr image_data, w1) \<Rightarrow>
                  (case ext_call (CallImageOpen image_data) (\<lambda>x. Image_open E x image_data) w1 of
                     (Inl e, w2) \<Rightarrow>
                       (HTTPException 400
                          (message_error ''Could not process the base64 string.'' e), w2)
                   | (Inr img, w2) \<Rightarrow>
                       (case ocr_or_500 E img ocr_language w2 of
                          (Inl failure, w3) \<Rightarrow> (failure, w3)
                        | (Inr extracted_text, w3) \<Rightarrow>
                            (case Language_call L ocr_language of
                               None \<Rightarrow> (Unhandled (Exception ocr_language), w3)
                             | Some m \<Rightarrow> (ocr_result (name m) extracted_text, w3))))))"

text \<open>The routes of the classical service that take a body.\<close>

datatype tesseract_request =
    T_file_to_base64 UploadFile
  | T_ocr UploadFile "Language_member option"
  | T_ocr_base64 string "Language_member option"
  | T_ocr_base64_json OCRJsonRequest

definition tesseract_app ::
  "Language_enum \<Rightarrow> ('img, 'x) libs \<Rightarrow> tesseract_request \<Rightarrow>
   ('img, 'x) world \<Rightarrow> response \<times> ('img, 'x) world" where
  "tesseract_app L E req w =
     (case req of
        T_file_to_base64 file \<Rightarrow> file_to_base64 file w
      | T_ocr file language_field \<Rightarrow> perform_ocr_tesseract L E file language_field w
      | T_ocr_base64 s language_field \<Rightarrow> perform_ocr_base46_tesseract L E s language_field w
      | T_ocr_base64_json request \<Rightarrow> perform_ocr_base64_json_tesseract L E request w)"

section \<open>The transformer engine adapter (\<open>app/core/engine.py\<close>)\<close>

text \<open>\<open>self.prompt\<close>, set in \<open>__init__\<close> (line 26).\<close>

definition DeepSeekOCR_prompt :: string where
  "DeepSeekOCR_prompt =
     ''<image>'' @ [CHR 0x0A] @ ''<|grounding|>Convert the document to markdown.''"

text \<open>\<open>torch.cuda.empty_cache()\<close>.\<close>

definition cuda_empty_cache :: "('img, 'x) libs \<Rightarrow> ('img, 'x) world \<Rightarrow> ('img, 'x) world" where
  "cuda_empty_cache E w =
     w\<lparr>ext := empty_cache E (ext w), trace := trace w @ [(CallEmptyCache, Returned)]\<rparr>"

text \<open>
  \<open>self.model.infer(...)\<close>: the model reads the image file and, with
  \<open>save_results=True\<close>, writes its results into the directory \<open>output_path\<close>;
  the files it wrote before raising stay there.
\<close>

definition model_infer_call ::
  "('img, 'x) libs \<Rightarrow> infer_args \<Rightarrow> ('img, 'x) world \<Rightarrow> (exn + unit) \<times> ('img, 'x) world" where
  "model_infer_call E args w =
     (case model_infer E (ext w) args (files w (image_file args)) of
        ((r, written), x) \<Rightarrow>
          (r, w\<lparr>ext := x,
                trace := trace w @ [(CallModelInfer args, outcome_of r)],
                dirs := (case dirs w (output_path args) of
                           None \<Rightarrow> dirs w
                         | Some entries \<Rightarrow>
                             (dirs w)(output_path args \<mapsto> entries ++ map_of written))\<rparr>))"

text \<open>
  \<open>with open(file=f"{tmpdir}/result.mmd", mode="r", encoding="utf-8") as f:
  content = f.read()\<close>: a missing file raises \<open>FileNotFoundError\<close>, bytes that are
  not UTF-8 raise \<open>UnicodeDecodeError\<close>.
\<close>

definition FileNotFoundError :: "string \<Rightarrow> exn" where
  "FileNotFoundError path =
     Exception (''[Errno 2] No such file or directory: '' @ [CHR 0x27] @ path @ [CHR 0x27])"

definition open_read ::
  "('img, 'x) libs \<Rightarrow> string \<Rightarrow> string \<Rightarrow> ('img, 'x) world \<Rightarrow> (exn + string) \<times> ('img, 'x) world" where
  "open_read E tmpdir fname w =
     pure_call (CallOpenRead (tmpdir @ ''/'' @ fname))
       (case dirs w tmpdir of
          None \<Rightarrow> Inl (FileNotFoundError (tmpdir @ ''/'' @ fname))
        | Some entries \<Rightarrow>
            (case entries fname of
               None \<Rightarrow> Inl (FileNotFoundError (tmpdir @ ''/'' @ fname))
             | Some data \<Rightarrow> utf8_decode E data))
       w"

text \<open>The body of the \<open>with tempfile.TemporaryDirectory() as tmpdir\<close> block, lines 34--51.\<close>

definition infer_body ::
  "('img, 'x) libs \<Rightarrow> string \<Rightarrow> string \<Rightarrow> ('img, 'x) world \<Rightarrow> (exn + string) \<times> ('img, 'x) world" where
  "infer_body E image_pth tmpdir w =
     (case model_infer_call E
             \<lparr>prompt = DeepSeekOCR_prompt, image_file = image_pth, output_path = tmpdir,
              base_size = 1024, image_size = 640, crop_mode = True, save_results = True,
              test_compress = True\<rparr> w of
        (Inl e, w1) \<Rightarrow> (Inl e, w1)
      | (Inr _, w1) \<Rightarrow> open_read E tmpdir ''result.mmd'' (cuda_empty_cache E w1))"

text \<open>
  \<open>DeepSeekOCR.infer\<close>, lines 28--52.  Leaving the \<open>with\<close> block removes the
  directory and all it holds, whether the body returned or raised.
\<close>

definition DeepSeekOCR_infer ::
  "('img, 'x) libs \<Rightarrow> string \<Rightarrow> ('img, 'x) world \<Rightarrow> (exn + string) \<times> ('img, 'x) world" where
  "DeepSeekOCR_infer E image_pth w =
     (case ext_call CallTemporaryDirectory (TemporaryDirectory E) (cuda_empty_cache E w) of
        (Inl e, w1) \<Rightarrow> (Inl e, w1)
      | (Inr tmpdir, w1) \<Rightarrow>
          (case infer_body E image_pth tmpdir (w1\<lparr>dirs := (dirs w1)(tmpdir \<mapsto> Map.empty)\<rparr>) of
             (r, w2) \<Rightarrow> (r, w2\<lparr>dirs := (dirs w2)(tmpdir := None)\<rparr>)))"

section \<open>The transformer service (\<open>app/api/routes-deepseek.py\<close>)\<close>

text \<open>
  Lines 119--121, 192--194 and 266--268: the rest of the \<open>try\<close> block once its
  first statement has given the bytes or raised.
\<close>

definition open_verify ::
  "('img, 'x) libs \<Rightarrow> (exn + bytes) \<times> ('img, 'x) world \<Rightarrow>
   (exn + bytes \<times> string) \<times> ('img, 'x) world" where
  "open_verify E first =
     (case first of
        (Inl e, w) \<Rightarrow> (Inl e, w)
      | (Inr image_data, w) \<Rightarrow>
          (case ext_call (CallImageOpen image_data) (\<lambda>x. Image_open E x image_data) w of
             (Inl e, w1) \<Rightarrow> (Inl e, w1)
           | (Inr img, w1) \<Rightarrow>
               (case pure_call (CallVerify img) (verify E img) w1 of
                  (Inl e, w2) \<Rightarrow> (Inl e, w2)
                | (Inr _, w2) \<Rightarrow> (Inr (image_data, suffix_of (format E img)), w2))))"

text \<open>Lines 122--134: the two \<open>except\<close> clauses, in the source's order.\<close>

definition sniff_error :: "exn \<Rightarrow> response" where
  "sniff_error e =
     (case e of
        UnidentifiedImageError _ \<Rightarrow> HTTPException 400 (JStr ''Invalid image file'')
      | Exception _ \<Rightarrow>
          HTTPException 400 (message_error ''Could not process the uploaded file.'' e))"

text \<open>
  A handler either has its response before it reaches \<open>model_lock\<close>, or it stands
  before the lock with its temporary file staged.
\<close>

datatype staged = Finished response | Staged string

text \<open>
  Lines 136--140: \<open>NamedTemporaryFile(delete=True, suffix=suffix)\<close> creates an empty
  file whose name ends with \<open>suffix\<close>; \<open>tmp.write\<close> and \<open>tmp.flush\<close> fill it.
  An exception here is caught by no clause; the \<open>with\<close> block deletes the file on
  the way out.
\<close>

definition stage_file ::
  "('img, 'x) libs \<Rightarrow> bytes \<Rightarrow> string \<Rightarrow> ('img, 'x) world \<Rightarrow> staged \<times> ('img, 'x) world" where
  "stage_file E image_data suffix w =
     (case ext_call (CallNamedTemporaryFile suffix) (\<lambda>x. NamedTemporaryFile E x suffix) w of
        (Inl e, w1) \<Rightarrow> (Finished (Unhandled e), w1)
      | (Inr stem, w1) \<Rightarrow>
          (let tmp = stem @ suffix in
           case ext_call (CallWrite tmp) (\<lambda>x. tmp_write E x tmp image_data)
                  (w1\<lparr>files := (files w1)(tmp \<mapsto> [])\<rparr>) of
             (Inl e, w2) \<Rightarrow> (Finished (Unhandled e), w2\<lparr>files := (files w2)(tmp := None)\<rparr>)
           | (Inr _, w2) \<Rightarrow> (Staged tmp, w2\<lparr>files := (files w2)(tmp \<mapsto> image_data)\<rparr>)))"

definition sniff_and_stage ::
  "('img, 'x) libs \<Rightarrow> (exn + bytes) \<times> ('img, 'x) world \<Rightarrow> staged \<times> ('img, 'x) world" where
  "sniff_and_stage E first =
     (case open_verify E first of
        (Inl e, w1) \<Rightarrow> (Finished (sniff_error e), w1)
      | (Inr (image_data, suffix), w1) \<Rightarrow> stage_file E image_data suffix w1)"

text \<open>
  Lines 142--161, entered with the lock held: \<open>model.infer\<close> runs, leaving
  \<open>async with model_lock\<close> releases the lock, the \<open>except\<close> clause or the
  \<open>return\<close> builds the response, and leaving the outer \<open>with\<close> deletes the
  temporary file.
\<close>

definition infer_and_respond ::
  "('img, 'x) libs \<Rightarrow> string \<Rightarrow> ('img, 'x) world \<Rightarrow> response \<times> ('img, 'x) world" where
  "infer_and_respond E tmp w =
     (case DeepSeekOCR_infer E tmp w of
        (r, w1) \<Rightarrow>
          ((case r of
              Inl e \<Rightarrow> HTTPException 500 (message_error ''Error during OCR'' e)
            | Inr res \<Rightarrow> JSONResponse (JObj [(''extracted_text'', JStr res)])),
           w1\<lparr>locked := False, files := (files w1)(tmp := None)\<rparr>))"

text \<open>
  A handler run on its own.  \<open>async with model_lock\<close> takes the lock when it is
  free; a handler that finds it held waits, and with nobody to release it never
  returns: \<open>None\<close>.
\<close>

definition after_staging ::
  "('img, 'x) libs \<Rightarrow> staged \<times> ('img, 'x) world \<Rightarrow> (response \<times> ('img, 'x) world) option" where
  "after_staging E sw =
     (case sw of
        (Finished r, w) \<Rightarrow> Some (r, w)
      | (Staged tmp, w) \<Rightarrow>
          if locked w then None else Some (infer_and_respond E tmp (w\<lparr>locked := True\<rparr>)))"

text \<open>The routes of the transformer service that take a body.\<close>

datatype deepseek_request =
    D_file_to_base64 UploadFile
  | D_ocr UploadFile
  | D_ocr_base64 string
  | D_ocr_base64_json OCRJsonRequestD

text \<open>Each handler up to the lock: lines 56--89, 98--140, 171--213 and 243--287.\<close>

definition before_lock ::
  "('img, 'x) libs \<Rightarrow> deepseek_request \<Rightarrow> ('img, 'x) world \<Rightarrow> staged \<times> ('img, 'x) world" where
  "before_lock E req w =
     (case req of
        D_file_to_base64 file \<Rightarrow> (case file_to_base64 file w of (r, w1) \<Rightarrow> (Finished r, w1))
      | D_ocr file \<Rightarrow> sniff_and_stage E (pure_call CallRead (read file) w)
      | D_ocr_base64 s \<Rightarrow> sniff_and_stage E (pure_call (CallB64decode s) (b64decode E s) w)
      | D_ocr_base64_json request \<Rightarrow>
          sniff_and_stage E
            (pure_call (CallB64decode (base64_string request))
               (b64decode E (base64_string request)) w))"

definition deepseek_app ::
  "('img, 'x) libs \<Rightarrow> deepseek_request \<Rightarrow> ('img, 'x) world \<Rightarrow>
   (response \<times> ('img, 'x) world) option" where
  "deepseek_app E req w = after_staging E (before_lock E req w)"

definition perform_ocr_deepseek ::
  "('img, 'x) libs \<Rightarrow> UploadFile \<Rightarrow> ('img, 'x) world \<Rightarrow> (response \<times> ('img, 'x) world) option" where
  "perform_ocr_deepseek E file w = deepseek_app E (D_ocr file) w"

definition perform_ocr_base46_deepseek ::
  "('img, 'x) libs \<Rightarrow> string \<Rightarrow> ('img, 'x) world \<Rightarrow> (response \<times> ('img, 'x) world) option" where
  "perform_ocr_base46_deepseek E base64_str w = deepseek_app E (D_ocr_base64 base64_str) w"

definition perform_ocr_base64_json_deepseek ::
  "('img, 'x) libs \<Rightarrow> OCRJsonRequestD \<Rightarrow> ('img, 'x) world \<Rightarrow>
   (response \<times> ('img, 'x) world) option" where
  "perform_ocr_base64_json_deepseek E request w = deepseek_app E (D_ocr_base64_json request) w"

section \<open>Concurrent requests to the transformer service\<close>

text \<open>
  The handlers are coroutines of one event loop.  A request is received, runs to the
  lock, takes the lock once it is free, and from then on \<open>model.infer\<close> runs in a
  worker thread (\<open>asyncio.to_thread\<close>) until it returns or raises; then the handler
  releases the lock and responds.  While one handler waits for the lock or for its
  thread, the loop runs the others.  What \<open>model.infer\<close> does to the world is
  applied when its thread ends.  A handler is never cancelled.
\<close>

datatype task = Received deepseek_request | AtLock string | InThread string | Done response

record ('img, 'x) system =
  state :: "('img, 'x) world"
  tasks :: "task list"

text \<open>What happens next: a request arrives, or the loop resumes task \<open>i\<close>.\<close>

datatype sched = Arrive deepseek_request | Run nat

fun in_thread :: "task \<Rightarrow> bool" where
  "in_thread (InThread _) = True"
| "in_thread _ = False"

definition n_inferring :: "('img, 'x) system \<Rightarrow> nat" where
  "n_inferring s = length (filter in_thread (tasks s))"

text \<open>One step; \<open>None\<close> when the chosen task cannot move (it is done, or the lock is held).\<close>

definition resume ::
  "('img, 'x) libs \<Rightarrow> nat \<Rightarrow> ('img, 'x) system \<Rightarrow> ('img, 'x) system option" where
  "resume E i s =
     (if i < length (tasks s) then
        (case tasks s ! i of
           Received req \<Rightarrow>
             (case before_lock E req (state s) of
                (Finished r, w) \<Rightarrow> Some \<lparr>state = w, tasks = (tasks s)[i := Done r]\<rparr>
              | (Staged tmp, w) \<Rightarrow> Some \<lparr>state = w, tasks = (tasks s)[i := AtLock tmp]\<rparr>)
         | AtLock tmp \<Rightarrow>
             (if locked (state s) then None
              else Some \<lparr>state = (state s)\<lparr>locked := True\<rparr>,
                         tasks = (tasks s)[i := InThread tmp]\<rparr>)
         | InThread tmp \<Rightarrow>
             (case infer_and_respond E tmp (state s) of
                (r, w) \<Rightarrow> Some \<lparr>state = w, tasks = (tasks s)[i := Done r]\<rparr>)
         | Done _ \<Rightarrow> None)
      else None)"

fun step :: "('img, 'x) libs \<Rightarrow> sched \<Rightarrow> ('img, 'x) system \<Rightarrow> ('img, 'x) system option" where
  "step E (Arrive req) s = Some (s\<lparr>tasks := tasks s @ [Received req]\<rparr>)"
| "step E (Run i) s = resume E i s"

fun run :: "('img, 'x) libs \<Rightarrow> sched list \<Rightarrow> ('img, 'x) system \<Rightarrow> ('img, 'x) system option" where
  "run E [] s = Some s"
| "run E (a # as) s = (case step E a s of None \<Rightarrow> None | Some s' \<Rightarrow> run E as s')"

section \<open>Notions used in the properties\<close>





text \<open>
  What a handler of the transformer service has done to the disk and the lock when it
  reaches the lock or responds before it: no directory is touched, the lock is
  untouched, and the only file that can be new is the staged one.
\<close>

definition staged_frame :: "('img, 'x) world \<Rightarrow> staged \<Rightarrow> ('img, 'x) world \<Rightarrow> bool" where
  "staged_frame w st w' \<longleftrightarrow>
     dirs w' = dirs w \<and> locked w' = locked w \<and>
     (case st of
        Finished r \<Rightarrow> dom (files w') \<subseteq> dom (files w)
      | Staged tmp \<Rightarrow> files w' tmp \<noteq> None \<and> dom (files w') \<subseteq> insert tmp (dom (files w)))"

text \<open>
  The lock and the worker threads agree: the lock is held exactly when one task is in
  its thread, and no more than one ever is.
\<close>

definition lock_inv :: "('img, 'x) system \<Rightarrow> bool" where
  "lock_inv s \<longleftrightarrow> n_inferring s = (if locked (state s) then 1 else 0)"

text \<open>
  The temporary file of a request that stands before the lock or has its inference
  running, and the temporary files of all such requests.
\<close>

fun staged_path :: "task \<Rightarrow> string option" where
  "staged_path (AtLock tmp) = Some tmp"
| "staged_path (InThread tmp) = Some tmp"
| "staged_path _ = None"

definition staged_paths :: "('img, 'x) system \<Rightarrow> string set" where
  "staged_paths s = set (List.map_filter staged_path (tasks s))"

text \<open>
  An upper bound on the steps a handler still takes before it has responded.
\<close>

fun steps_left :: "task \<Rightarrow> nat" where
  "steps_left (Received _) = 3"
| "steps_left (AtLock _) = 2"
| "steps_left (InThread _) = 1"
| "steps_left (Done _) = 0"

text \<open>The outcome of a call with the text of its exception left out.\<close>

definition forget_text :: "exn + 'a \<Rightarrow> unit + 'a" where
  "forget_text r = (case r of Inl _ \<Rightarrow> Inl () | Inr v \<Rightarrow> Inr v)"

text \<open>
  Two responses that are the same, or are two 400 responses with the same message
  whose \<open>error\<close> texts may differ.
\<close>

abbreviation same_but_error_text :: "response \<Rightarrow> response \<Rightarrow> bool" where
  "same_but_error_text r1 r2 \<equiv>
     r1 = r2 \<or> (\<exists>m e1 e2. r1 = HTTPException 400 (message_error m e1)
                         \<and> r2 = HTTPException 400 (message_error m e2))"

section \<open>Example libraries and requests\<close>

definition demo_png :: bytes where
  "demo_png = [0x89, 0x50, 0x4E, 0x47]"

definition demo_libs :: "(string, nat) libs" where
  "demo_libs =
     \<lparr>b64decode = (\<lambda>s. case rfc4648_decode s of
                          None \<Rightarrow> Inl (Exception ''Incorrect padding'')
                        | Some data \<Rightarrow> Inr data),
      Image_open = (\<lambda>x data. (if take 4 data = demo_png then Inr ''PNG''
                               else Inl (UnidentifiedImageError ''cannot identify image file''),
                              x)),
      verify = (\<lambda>img. Inr ()),
      format = (\<lambda>img. Some img),
      image_to_string = (\<lambda>x img lang. (Inr (''text in '' @ lang), Suc x)),
      empty_cache = (\<lambda>x. x),
      NamedTemporaryFile = (\<lambda>x suffix. (Inr (''/tmp/tmp'' @ replicate x (CHR ''a'')), Suc x)),
      tmp_write = (\<lambda>x path data. (Inr (), x)),
      TemporaryDirectory = (\<lambda>x. (Inr (''/tmp/dir'' @ replicate x (CHR ''a'')), Suc x)),
      model_infer = (\<lambda>x args img. ((Inr (), [(''result.mmd'', [0x23, 0x20, 0x41])]), x)),
      utf8_decode = (\<lambda>data. Inr (if data = [0x23, 0x20, 0x41] then ''# A'' else []))\<rparr>"

text \<open>The same libraries with a model that runs out of memory.\<close>

definition failing_libs :: "(string, nat) libs" where
  "failing_libs =
     demo_libs\<lparr>model_infer := (\<lambda>x args img. ((Inl (Exception ''CUDA out of memory''), []), x))\<rparr>"

definition demo_world :: "(string, nat) world" where
  "demo_world = \<lparr>ext = 0, trace = [], files = Map.empty, dirs = Map.empty, locked = False\<rparr>"

definition demo_Language :: Language_enum where
  "demo_Language = [\<lparr>name = ''English'', val = ''eng''\<rparr>, \<lparr>name = ''Farsi'', val = ''fas''\<rparr>]"

definition demo_upload :: UploadFile where
  "demo_upload = \<lparr>filename = Some ''scan.png'', read = Inr demo_png\<rparr>"

definition text_upload :: UploadFile where
  "text_upload = \<lparr>filename = Some ''notes.txt'', read = Inr [0x68, 0x69]\<rparr>"


text \<open>
  Two uploads arrive at a fresh process; both are staged, then the first takes the
  lock.
\<close>

definition demo_start :: "(string, nat) system" where
  "demo_start = \<lparr>state = demo_world, tasks = []\<rparr>"

definition demo_sched :: "sched list" where
  "demo_sched = [Arrive (D_ocr demo_upload), Arrive (D_ocr demo_upload), Run 0, Run 1, Run 0]"

text \<open>The schedule continued until both requests have their response.\<close>

definition demo_sched_all :: "sched list" where
  "demo_sched_all = demo_sched @ [Run 0, Run 1, Run 1]"

text \<open>One upload, served from its arrival to its response.\<close>

definition solo_sched :: "sched list" where
  "solo_sched = [Arrive (D_ocr demo_upload), Run 0, Run 0, Run 0]"

text \<open>
  The same libraries with an \<open>Image.open\<close> whose exception text names an object
  by its address, a new one at every call.
\<close>

definition addr_libs :: "(string, nat) libs" where
  "addr_libs =
     demo_libs\<lparr>Image_open :=
       (\<lambda>x data.
          (if take 4 data = demo_png then Inr ''PNG''
           else Inl (UnidentifiedImageError
                  (''cannot identify image file <_io.BytesIO object at 0x7f''
                     @ replicate x (CHR ''0'') @ ''>'')),
           Suc x))\<rparr>"

text \<open>
  Libraries that open a PNG file as \<open>PIL\<close> does.  \<open>Image.open\<close> reads the
  signature and the chunks up to the header of the first data chunk, and keeps the
  buffer; the data are read later, by \<open>image.verify()\<close> or when
  \<open>image_to_string\<close> saves the image for the OCR process, and a file cut off
  before its end chunk fails there.  The image object is the buffer.
\<close>

definition png_signature :: bytes where
  "png_signature = [0x89, 0x50, 0x4E, 0x47, 0x0D, 0x0A, 0x1A, 0x0A]"

definition png_end :: bytes where
  "png_end = [0x00, 0x00, 0x00, 0x00, 0x49, 0x45, 0x4E, 0x44, 0xAE, 0x42, 0x60, 0x82]"

definition png_header :: "bytes \<Rightarrow> bool" where
  "png_header data =
     (take 8 data = png_signature
      \<and> take 4 (drop 12 data) = [0x49, 0x48, 0x44, 0x52]
      \<and> take 4 (drop 37 data) = [0x49, 0x44, 0x41, 0x54])"

definition complete_png :: "bytes \<Rightarrow> bool" where
  "complete_png data =
     (png_header data \<and> 12 \<le> length data \<and> drop (length data - 12) data = png_end)"

definition lazy_libs :: "(bytes, nat) libs" where
  "lazy_libs =
     \<lparr>b64decode = (\<lambda>s. case rfc4648_decode s of
                          None \<Rightarrow> Inl (Exception ''Incorrect padding'')
                        | Some data \<Rightarrow> Inr data),
      Image_open = (\<lambda>x data. (if png_header data then Inr data
                               else Inl (UnidentifiedImageError ''cannot identify image file''),
                              x)),
      verify = (\<lambda>img. if complete_png img then Inr ()
                       else Inl (Exception ''Truncated File Read'')),
      format = (\<lambda>img. Some ''PNG''),
      image_to_string = (\<lambda>x img lang. (if complete_png img then Inr (''text in '' @ lang)
                                         else Inl (Exception ''image file is truncated''),
                                        x)),
      empty_cache = (\<lambda>x. x),
      NamedTemporaryFile = (\<lambda>x suffix. (Inr (''/tmp/tmp'' @ replicate x (CHR ''a'')), Suc x)),
      tmp_write = (\<lambda>x path data. (Inr (), x)),
      TemporaryDirectory = (\<lambda>x. (Inr (''/tmp/dir'' @ replicate x (CHR ''a'')), Suc x)),
      model_infer = (\<lambda>x args img. ((Inr (), [(''result.mmd'', [0x23, 0x20, 0x41])]), x)),
      utf8_decode = (\<lambda>data. Inr (if data = [0x23, 0x20, 0x41] then ''# A'' else []))\<rparr>"

definition lazy_world :: "(bytes, nat) world" where
  "lazy_world = \<lparr>ext = 0, trace = [], files = Map.empty, dirs = Map.empty, locked = False\<rparr>"

text \<open>
  A PNG file of two by two grey pixels cut off in the middle of its data chunk: the
  signature, the header chunk, and the first five of the twelve bytes of data.
\<close>

definition truncated_png :: bytes where
  "truncated_png =
     [0x89, 0x50, 0x4E, 0x47, 0x0D, 0x0A, 0x1A, 0x0A,
      0x00, 0x00, 0x00, 0x0D, 0x49, 0x48, 0x44, 0x52,
      0x00, 0x00, 0x00, 0x02, 0x00, 0x00, 0x00, 0x02, 0x08, 0x00, 0x00, 0x00, 0x00,
      0x57, 0xDD, 0x52, 0xF8,
      0x00, 0x00, 0x00, 0x0C, 0x49, 0x44, 0x41, 0x54,
      0x78, 0x9C, 0x63, 0x60, 0xF8]"

definition truncated_upload :: UploadFile where
  "truncated_upload = \<lparr>filename = Some ''scan.png'', read = Inr truncated_png\<rparr>"

text \<open>An enum that declares \<open>Farsi\<close> as a second name for an earlier value.\<close>

definition alias_Language :: Language_enum where
  "alias_Language = [\<lparr>name = ''Persian'', val = ''fas''\<rparr>, \<lparr>name = ''Farsi'', val = ''fas''\<rparr>]"

section \<open>Base64: decoding inverts encoding\<close>

lemma b64alphabet_length: "length b64alphabet = 64"
  by (simp add: b64alphabet_def)

lemma b64alphabet_distinct: "distinct b64alphabet"
  by (simp add: b64alphabet_def)

lemma b64index_b64char: "i < 64 \<Longrightarrow> b64index (b64char i) = Some i"
  unfolding b64index_def b64char_def
  using map_of_zip_nth[of b64alphabet "[0..<64]" i]
  by (simp add: b64alphabet_length b64alphabet_distinct)

lemma b64char_not_pad: "b64char i \<noteq> CHR ''=''"
proof -
  have "b64char i \<in> set b64alphabet"
    by (simp add: b64char_def b64alphabet_length)
  moreover have "CHR ''='' \<notin> set b64alphabet" by (simp add: b64alphabet_def)
  ultimately show ?thesis by auto
qed

lemma byte_lt: "unat (a :: byte) < 256"
  using unsigned_less[of a] by simp

lemma div16_lt: "y < 256 \<Longrightarrow> y div 16 < (16::nat)"
  by (simp add: less_mult_imp_div_less)

lemma div64_lt: "z < 256 \<Longrightarrow> z div 64 < (4::nat)"
  by (simp add: less_mult_imp_div_less)

lemma sextet1: "x < 256 \<Longrightarrow> x div 4 < (64::nat)"
  by (simp add: less_mult_imp_div_less)

lemma sextet2: assumes "y < 256" shows "(x mod 4) * 16 + y div 16 < (64::nat)"
proof -
  have "x mod 4 \<le> 3" by simp
  then have "(x mod 4) * 16 \<le> 48" by simp
  with div16_lt[OF assms] show ?thesis by linarith
qed

lemma sextet3: assumes "z < 256" shows "(y mod 16) * 4 + z div 64 < (64::nat)"
proof -
  have "y mod 16 \<le> 15" by simp
  then have "(y mod 16) * 4 \<le> 60" by simp
  with div64_lt[OF assms] show ?thesis by linarith
qed

lemma octet1: "y < 256 \<Longrightarrow> x div 4 * 4 + ((x mod 4) * 16 + y div 16) div 16 = (x::nat)"
  using div16_lt[of y] by simp

lemma octet2:
  "y < 256 \<Longrightarrow> z < 256 \<Longrightarrow>
   (((x mod 4) * 16 + y div 16) mod 16) * 16 + ((y mod 16) * 4 + z div 64) div 4 = (y::nat)"
  using div16_lt[of y] div64_lt[of z] by simp

lemma octet3: "z < 256 \<Longrightarrow> (((y mod 16) * 4 + z div 64) mod 4) * 64 + z mod 64 = (z::nat)"
  using div64_lt[of z] by simp

lemma dec4_enc:
  "dec4 (b64char (unat a div 4)) (b64char ((unat a mod 4) * 16 + unat b div 16))
        (b64char ((unat b mod 16) * 4 + unat c div 64)) (b64char (unat c mod 64))
   = Some [a, b, c :: byte]"
proof -
  have la: "unat a < 256" and lb: "unat b < 256" and lc: "unat c < 256" by (rule byte_lt)+
  have i4: "unat c mod 64 < 64" by simp
  show ?thesis
    unfolding dec4_def
    by (simp only: b64index_b64char[OF sextet1[OF la]] b64index_b64char[OF sextet2[OF lb]]
        b64index_b64char[OF sextet3[OF lc]] b64index_b64char[OF i4]
        octet1[OF lb] octet2[OF lb lc] octet3[OF lc] prod.case option.case of_nat_unat ucast_id)
qed

lemma dec3_enc:
  "dec3 (b64char (unat a div 4)) (b64char ((unat a mod 4) * 16 + unat b div 16))
        (b64char ((unat b mod 16) * 4)) = Some [a, b :: byte]"
proof -
  have la: "unat a < 256" and lb: "unat b < 256" by (rule byte_lt)+
  have z: "(0::nat) < 256" by simp
  have i3: "(unat b mod 16) * 4 < 64" using sextet3[OF z, of "unat b"] by simp
  have o2: "(((unat a mod 4) * 16 + unat b div 16) mod 16) * 16 + ((unat b mod 16) * 4) div 4 = unat b"
    using octet2[OF lb z, of "unat a"] by simp
  show ?thesis
    unfolding dec3_def
    by (simp only: b64index_b64char[OF sextet1[OF la]] b64index_b64char[OF sextet2[OF lb]]
        b64index_b64char[OF i3] octet1[OF lb] o2 prod.case option.case of_nat_unat ucast_id)
qed

lemma dec2_enc:
  "dec2 (b64char (unat a div 4)) (b64char ((unat a mod 4) * 16)) = Some [a :: byte]"
proof -
  have la: "unat a < 256" by (rule byte_lt)
  have z: "(0::nat) < 256" by simp
  have i2: "(unat a mod 4) * 16 < 64" using sextet2[OF z, of "unat a"] by simp
  have o1: "unat a div 4 * 4 + ((unat a mod 4) * 16) div 16 = unat a"
    using octet1[OF z, of "unat a"] by simp
  show ?thesis
    unfolding dec2_def
    by (simp only: b64index_b64char[OF sextet1[OF la]] b64index_b64char[OF i2] o1
        prod.case option.case of_nat_unat ucast_id)
qed

lemma rfc4648_decode_group:
  assumes "c3 \<noteq> CHR ''=''" "c4 \<noteq> CHR ''=''"
  shows "rfc4648_decode (c1 # c2 # c3 # c4 # r) =
     (case dec4 c1 c2 c3 c4 of
        None \<Rightarrow> None
      | Some bs \<Rightarrow> (case rfc4648_decode r of None \<Rightarrow> None | Some bs' \<Rightarrow> Some (bs @ bs')))"
  using assms by (cases r) (auto split: option.splits)

lemma rfc4648_decode_b64encode: "rfc4648_decode (b64encode bs) = Some bs"
proof (induction bs rule: b64encode.induct)
  case (1 a b c rest)
  then show ?case
    by (simp add: rfc4648_decode_group b64char_not_pad dec4_enc)
next
  case (2 a b)
  then show ?case by (simp add: b64char_not_pad dec3_enc)
next
  case (3 a)
  then show ?case by (simp add: dec2_enc)
next
  case 4
  then show ?case by simp
qed

section \<open>Facts about the schema\<close>

lemma Language_call_None: "Language_call L v = None \<longleftrightarrow> v \<notin> val ` set L"
  by (auto simp: Language_call_def find_None_iff)

lemma find_SomeD: "find P xs = Some x \<Longrightarrow> P x \<and> x \<in> set xs"
  by (auto simp: find_Some_iff)

lemma find_SomeI: "x \<in> set xs \<Longrightarrow> P x \<Longrightarrow> \<exists>y. find P xs = Some y"
  by (cases "find P xs") (auto simp: find_None_iff)

text \<open>In an enum without aliases the attribute of a declared name is the member of that name.\<close>

lemma Language_getattr_distinct:
  assumes "distinct (map val L)" and "n \<in> name ` set L"
  shows "\<exists>m. Language_getattr L n = Some m \<and> name m = n \<and> m \<in> set L"
proof -
  from assms(2) obtain d0 where "d0 \<in> set L" "name d0 = n" by auto
  from find_SomeI[OF this(1), of "\<lambda>m. name m = n"] this(2)
  obtain d where d: "find (\<lambda>m. name m = n) L = Some d" by auto
  from find_SomeD[OF d] have dn: "name d = n" and dL: "d \<in> set L" by simp_all
  from find_SomeI[OF dL, of "\<lambda>m. val m = val d"]
  obtain m where m: "find (\<lambda>m. val m = val d) L = Some m" by auto
  from find_SomeD[OF m] have mv: "val m = val d" and mL: "m \<in> set L" by simp_all
  from assms(1) have "inj_on val (set L)" by (simp add: distinct_map)
  with mv mL dL have "m = d" by (auto dest: inj_onD)
  with d m dn dL show ?thesis by (simp add: Language_getattr_def)
qed

text \<open>With an alias, the attribute is the earlier member, under the earlier name.\<close>

lemma Language_getattr_alias:
  "Language_getattr alias_Language ''Farsi'' = Some \<lparr>name = ''Persian'', val = ''fas''\<rparr>"
  by (simp add: Language_getattr_def alias_Language_def)

section \<open>\<open>/file-to-base64\<close> round trip\<close>

text \<open>
  C9.  For every upload that is read successfully, \<open>/file-to-base64\<close> of either
  service answers 200 with the same body: its \<open>filename\<close> is the upload's declared
  file name unchanged (\<open>null\<close> when there is none), and base64-decoding its
  \<open>base64_string\<close> gives back exactly the uploaded bytes.
\<close>

theorem file_to_base64_roundtrip:
  assumes "read file = Inr file_data"
  shows "\<exists>body s w'.
           tesseract_app L E (T_file_to_base64 file) w = (JSONResponse body, w')
         \<and> deepseek_app E (D_file_to_base64 file) w = Some (JSONResponse body, w')
         \<and> field ''filename'' body = Some (case filename file of None \<Rightarrow> JNull | Some f \<Rightarrow> JStr f)
         \<and> field ''base64_string'' body = Some (JStr s)
         \<and> rfc4648_decode s = Some file_data"
  using assms
  by (simp add: tesseract_app_def deepseek_app_def before_lock_def after_staging_def
      file_to_base64_def pure_call_def rfc4648_decode_b64encode)

theorem file_to_base64_roundtrip_witness:
  "read demo_upload = Inr demo_png
   \<and> fst (tesseract_app demo_Language demo_libs (T_file_to_base64 demo_upload) demo_world) =
       JSONResponse (JObj [(''filename'', JStr ''scan.png''), (''base64_string'', JStr ''iVBORw=='')])
   \<and> map_option fst (deepseek_app demo_libs (D_file_to_base64 demo_upload) demo_world) =
       Some (JSONResponse (JObj [(''filename'', JStr ''scan.png''), (''base64_string'', JStr ''iVBORw=='')]))
   \<and> rfc4648_decode ''iVBORw=='' = Some demo_png"
proof -
  have h: "read demo_upload = Inr demo_png" by (simp add: demo_upload_def)
  have e: "b64encode demo_png = ''iVBORw==''"
    by (simp add: demo_png_def b64char_def b64alphabet_def)
  from file_to_base64_roundtrip[OF h, of demo_Language demo_libs demo_world]
  obtain body s w' where
    t: "tesseract_app demo_Language demo_libs (T_file_to_base64 demo_upload) demo_world =
          (JSONResponse body, w')"
    and d: "deepseek_app demo_libs (D_file_to_base64 demo_upload) demo_world =
          Some (JSONResponse body, w')"
    and s: "field ''base64_string'' body = Some (JStr s)" "rfc4648_decode s = Some demo_png"
    by blast
  have b: "body = JObj [(''filename'', JStr ''scan.png''), (''base64_string'', JStr ''iVBORw=='')]"
    using t by (simp add: tesseract_app_def file_to_base64_def pure_call_def demo_upload_def e)
  with s have "rfc4648_decode ''iVBORw=='' = Some demo_png" by simp
  with h t d b show ?thesis by simp
qed

section \<open>Unsupported language on the JSON route\<close>

text \<open>
  C3.  For every JSON request to the classical service's \<open>/ocr_base64_json\<close> whose
  language is the value of no member of \<open>Language\<close>, the handler answers 422 with
  the offending value under \<open>invalid language entry\<close> and, under
  \<open>allowed languages\<close>, the members' values in ascending order, each once.  The
  world it returns is the one it was given: no library call was made, so neither the
  base64 decoder nor \<open>Image.open\<close> was attempted.
\<close>

theorem unsupported_language_422:
  assumes "language request \<notin> val ` set L"
  shows "\<exists>codes.
           perform_ocr_base64_json_tesseract L E request w =
             (HTTPException 422
                (JObj [(''invalid language entry'', JStr (language request)),
                       (''allowed languages'', JList (map JStr codes))]), w)
         \<and> sorted codes \<and> distinct codes \<and> set codes = val ` set L"
proof -
  have none: "Language_call L (language request) = None"
    using assms by (simp add: Language_call_None)
  let ?codes = "sorted_list_of_set (val ` set L)"
  have "perform_ocr_base64_json_tesseract L E request w =
          (HTTPException 422
             (JObj [(''invalid language entry'', JStr (language request)),
                    (''allowed languages'', JList (map JStr ?codes))]), w)"
    by (simp add: perform_ocr_base64_json_tesseract_def Let_def none)
  moreover have "sorted ?codes" "distinct ?codes" "set ?codes = val ` set L"
    by simp_all
  ultimately show ?thesis by blast
qed

theorem unsupported_language_422_witness:
  "''xx'' \<notin> val ` set demo_Language
   \<and> perform_ocr_base64_json_tesseract demo_Language demo_libs
        \<lparr>base64_string = ''iVBORw=='', language = ''xx''\<rparr> demo_world =
       (HTTPException 422
          (JObj [(''invalid language entry'', JStr ''xx''),
                 (''allowed languages'', JList [JStr ''eng'', JStr ''fas''])]), demo_world)"
proof -
  have h: "language \<lparr>base64_string = ''iVBORw=='', language = ''xx''\<rparr> \<notin> val ` set demo_Language"
    by (simp add: demo_Language_def)
  from unsupported_language_422[OF h, of demo_libs demo_world]
  obtain codes where
    r: "perform_ocr_base64_json_tesseract demo_Language demo_libs
          \<lparr>base64_string = ''iVBORw=='', language = ''xx''\<rparr> demo_world =
        (HTTPException 422
          (JObj [(''invalid language entry'', JStr ''xx''),
                 (''allowed languages'', JList (map JStr codes))]), demo_world)"
    and c: "sorted codes" "distinct codes" "set codes = val ` set demo_Language"
    by auto
  have "codes = sorted_list_of_set (val ` set demo_Language)"
    using c by (metis sorted_list_of_set.idem_if_sorted_distinct)
  also have "\<dots> = [''eng'', ''fas'']"
    by (simp add: demo_Language_def)
  finally show ?thesis using r h by simp
qed

section \<open>The example libraries evaluated\<close>

lemma demo_libs_simps:
  "b64decode demo_libs s =
     (case rfc4648_decode s of None \<Rightarrow> Inl (Exception ''Incorrect padding'') | Some data \<Rightarrow> Inr data)"
  "Image_open demo_libs x data =
     (if take 4 data = demo_png then Inr ''PNG''
      else Inl (UnidentifiedImageError ''cannot identify image file''), x)"
  "verify demo_libs img = Inr ()"
  "format demo_libs img = Some img"
  "image_to_string demo_libs x img lang = (Inr (''text in '' @ lang), Suc x)"
  "empty_cache demo_libs x = x"
  "NamedTemporaryFile demo_libs x sfx = (Inr (''/tmp/tmp'' @ replicate x (CHR ''a'')), Suc x)"
  "tmp_write demo_libs x path data = (Inr (), x)"
  "TemporaryDirectory demo_libs x = (Inr (''/tmp/dir'' @ replicate x (CHR ''a'')), Suc x)"
  "model_infer demo_libs x args file = ((Inr (), [(''result.mmd'', [0x23, 0x20, 0x41])]), x)"
  "utf8_decode demo_libs data = Inr (if data = [0x23, 0x20, 0x41] then ''# A'' else [])"
  by (simp_all add: demo_libs_def)

lemma failing_libs_simps:
  "b64decode failing_libs = b64decode demo_libs"
  "Image_open failing_libs = Image_open demo_libs"
  "verify failing_libs = verify demo_libs"
  "format failing_libs = format demo_libs"
  "image_to_string failing_libs = image_to_string demo_libs"
  "empty_cache failing_libs = empty_cache demo_libs"
  "NamedTemporaryFile failing_libs = NamedTemporaryFile demo_libs"
  "tmp_write failing_libs = tmp_write demo_libs"
  "TemporaryDirectory failing_libs = TemporaryDirectory demo_libs"
  "model_infer failing_libs x args file = ((Inl (Exception ''CUDA out of memory''), []), x)"
  "utf8_decode failing_libs = utf8_decode demo_libs"
  by (simp_all add: failing_libs_def)

lemma demo_open: "Image_open demo_libs x demo_png = (Inr ''PNG'', x)"
  by (simp add: demo_libs_simps demo_png_def)

lemma demo_verify: "verify demo_libs img = Inr ()"
  by (simp add: demo_libs_simps)

lemma demo_format: "format demo_libs img = Some img"
  by (simp add: demo_libs_simps)

lemma lower_PNG: "lower ''PNG'' = ''png''"
  by (simp add: lower_def lower_char_def)

lemma suffix_of_PNG: "suffix_of (Some ''PNG'') = ''.png''"
  by (simp add: suffix_of_def lower_PNG)

lemma demo_open_verify:
  "open_verify demo_libs (Inr demo_png, w) =
     (Inr (demo_png, ''.png''),
      w\<lparr>trace := trace w @ [(CallImageOpen demo_png, Returned), (CallVerify ''PNG'', Returned)]\<rparr>)"
  by (simp add: open_verify_def pure_call_def ext_call_def demo_open demo_verify demo_format
      suffix_of_PNG)

lemma demo_png_b64encode: "b64encode demo_png = ''iVBORw==''"
  by (simp add: demo_png_def b64char_def b64alphabet_def)

lemma demo_png_b64decode: "b64decode demo_libs ''iVBORw=='' = Inr demo_png"
  using rfc4648_decode_b64encode[of demo_png]
  by (simp add: demo_png_b64encode demo_libs_def)

lemma demo_world_simps:
  "ext demo_world = 0" "trace demo_world = []" "files demo_world = Map.empty"
  "dirs demo_world = Map.empty" "locked demo_world = False"
  by (simp_all add: demo_world_def)


lemma hi_b64decode: "b64decode demo_libs ''aGk='' = Inr [0x68, 0x69]"
proof -
  have "b64encode [0x68, 0x69] = ''aGk=''"
    by (simp add: b64char_def b64alphabet_def)
  with rfc4648_decode_b64encode[of "[0x68, 0x69]"] show ?thesis
    by (simp add: demo_libs_simps)
qed


lemma demo_Farsi:
  "Language_getattr demo_Language ''Farsi'' = Some \<lparr>name = ''Farsi'', val = ''fas''\<rparr>"
  by (simp add: Language_getattr_def demo_Language_def)

lemma failing_open_verify: "open_verify failing_libs = open_verify demo_libs"
  by (rule ext) (simp add: open_verify_def failing_libs_simps split: prod.splits sum.splits)

lemma failing_stage_file: "stage_file failing_libs = stage_file demo_libs"
  by (intro ext) (simp add: stage_file_def failing_libs_simps Let_def split: prod.splits sum.splits)

lemma failing_sniff_and_stage: "sniff_and_stage failing_libs = sniff_and_stage demo_libs"
  by (rule ext)
     (simp add: sniff_and_stage_def failing_open_verify failing_stage_file
        split: prod.splits sum.splits)




lemma demo_before_lock_any:
  "before_lock demo_libs (D_ocr demo_upload) w =
     (Staged (''/tmp/tmp'' @ replicate (ext w) (CHR ''a'') @ ''.png''),
      w\<lparr>ext := Suc (ext w),
        trace := trace w @
          [(CallRead, Returned), (CallImageOpen demo_png, Returned),
           (CallVerify ''PNG'', Returned), (CallNamedTemporaryFile ''.png'', Returned),
           (CallWrite (''/tmp/tmp'' @ replicate (ext w) (CHR ''a'') @ ''.png''), Returned)],
        files := (files w)(''/tmp/tmp'' @ replicate (ext w) (CHR ''a'') @ ''.png'' \<mapsto> demo_png)\<rparr>)"
  by (simp add: before_lock_def pure_call_def demo_upload_def sniff_and_stage_def
      demo_open_verify stage_file_def ext_call_def demo_libs_simps Let_def)

lemma demo_run:
  "run demo_libs demo_sched demo_start =
     Some \<lparr>state = \<lparr>ext = 2,
              trace = [(CallRead, Returned), (CallImageOpen demo_png, Returned),
                       (CallVerify ''PNG'', Returned), (CallNamedTemporaryFile ''.png'', Returned),
                       (CallWrite ''/tmp/tmp.png'', Returned),
                       (CallRead, Returned), (CallImageOpen demo_png, Returned),
                       (CallVerify ''PNG'', Returned), (CallNamedTemporaryFile ''.png'', Returned),
                       (CallWrite ''/tmp/tmpa.png'', Returned)],
              files = [''/tmp/tmp.png'' \<mapsto> demo_png, ''/tmp/tmpa.png'' \<mapsto> demo_png],
              dirs = Map.empty, locked = True\<rparr>,
           tasks = [InThread ''/tmp/tmp.png'', AtLock ''/tmp/tmpa.png'']\<rparr>"
  by (simp add: demo_sched_def demo_start_def resume_def demo_before_lock_any demo_world_def)

lemma demo_infer_and_respond:
  "infer_and_respond demo_libs tmp w =
     (JSONResponse (JObj [(''extracted_text'', JStr ''# A'')]),
      w\<lparr>ext := Suc (ext w),
        trace := trace w @
          [(CallEmptyCache, Returned), (CallTemporaryDirectory, Returned),
           (CallModelInfer
              \<lparr>prompt = DeepSeekOCR_prompt, image_file = tmp,
               output_path = ''/tmp/dir'' @ replicate (ext w) (CHR ''a''),
               base_size = 1024, image_size = 640, crop_mode = True, save_results = True,
               test_compress = True\<rparr>, Returned),
           (CallEmptyCache, Returned),
           (CallOpenRead (''/tmp/dir'' @ replicate (ext w) (CHR ''a'') @ ''/result.mmd''), Returned)],
        dirs := (dirs w)(''/tmp/dir'' @ replicate (ext w) (CHR ''a'') := None),
        locked := False,
        files := (files w)(tmp := None)\<rparr>)"
  by (simp add: infer_and_respond_def DeepSeekOCR_infer_def infer_body_def model_infer_call_def
      open_read_def pure_call_def cuda_empty_cache_def ext_call_def demo_libs_simps)

lemma run_append:
  "run E (as @ bs) s = (case run E as s of None \<Rightarrow> None | Some s' \<Rightarrow> run E bs s')"
  by (induction as arbitrary: s) (auto split: option.splits)

section \<open>The default language of the form routes\<close>

text \<open>
  C10.  Let the enum declare the name \<open>Farsi\<close> and give no two names the same
  value (so \<open>Farsi\<close> is no alias).  When a form request to the classical service's
  \<open>/ocr\<close> or \<open>/ocr_base64\<close> omits the language field, the member
  \<open>Language.Farsi\<close> is used: it is a member of the enum, its name is \<open>Farsi\<close>,
  the one engine call of the request is \<open>image_to_string\<close> with that member's
  value as \<open>lang\<close>, and the success response's \<open>language\<close> field is
  \<open>Farsi\<close>.
\<close>

theorem default_language_Farsi:
  assumes "''Farsi'' \<in> name ` set L" and "distinct (map val L)"
    and "Image_open E (ext w) data = (Inr img, x1)"
  shows "\<exists>farsi. Language_getattr L ''Farsi'' = Some farsi \<and> farsi \<in> set L
       \<and> name farsi = ''Farsi''
       \<and> (\<forall>r x. image_to_string E x1 img (val farsi) = (r, x) \<longrightarrow>
            (read file = Inr data \<longrightarrow>
               perform_ocr_tesseract L E file None w =
                 ((case r of
                     Inl e \<Rightarrow> HTTPException 500 (message_error ''Error during OCR'' e)
                   | Inr t \<Rightarrow> JSONResponse (JObj [(''language'', JStr ''Farsi''),
                                                  (''extracted_text'', JStr t)])),
                  w\<lparr>ext := x,
                     trace := trace w @ [(CallRead, Returned), (CallImageOpen data, Returned),
                                          (CallImageToString img (val farsi), outcome_of r)]\<rparr>))
          \<and> (b64decode E s = Inr data \<longrightarrow>
               perform_ocr_base46_tesseract L E s None w =
                 ((case r of
                     Inl e \<Rightarrow> HTTPException 500 (message_error ''Error during OCR'' e)
                   | Inr t \<Rightarrow> JSONResponse (JObj [(''language'', JStr ''Farsi''),
                                                  (''extracted_text'', JStr t)])),
                  w\<lparr>ext := x,
                     trace := trace w @ [(CallB64decode s, Returned), (CallImageOpen data, Returned),
                                          (CallImageToString img (val farsi), outcome_of r)]\<rparr>)))"
proof -
  from Language_getattr_distinct[OF assms(2,1)] obtain farsi where
    f: "Language_getattr L ''Farsi'' = Some farsi" "name farsi = ''Farsi''" "farsi \<in> set L"
    by blast
  have "\<forall>r x. image_to_string E x1 img (val farsi) = (r, x) \<longrightarrow>
            (read file = Inr data \<longrightarrow>
               perform_ocr_tesseract L E file None w =
                 ((case r of
                     Inl e \<Rightarrow> HTTPException 500 (message_error ''Error during OCR'' e)
                   | Inr t \<Rightarrow> JSONResponse (JObj [(''language'', JStr ''Farsi''),
                                                  (''extracted_text'', JStr t)])),
                  w\<lparr>ext := x,
                     trace := trace w @ [(CallRead, Returned), (CallImageOpen data, Returned),
                                          (CallImageToString img (val farsi), outcome_of r)]\<rparr>))
          \<and> (b64decode E s = Inr data \<longrightarrow>
               perform_ocr_base46_tesseract L E s None w =
                 ((case r of
                     Inl e \<Rightarrow> HTTPException 500 (message_error ''Error during OCR'' e)
                   | Inr t \<Rightarrow> JSONResponse (JObj [(''language'', JStr ''Farsi''),
                                                  (''extracted_text'', JStr t)])),
                  w\<lparr>ext := x,
                     trace := trace w @ [(CallB64decode s, Returned), (CallImageOpen data, Returned),
                                          (CallImageToString img (val farsi), outcome_of r)]\<rparr>))"
    using f assms(3)
    by (auto simp: perform_ocr_tesseract_def perform_ocr_base46_tesseract_def pure_call_def
        ext_call_def ocr_or_500_def ocr_result_def split: sum.splits)
  with f show ?thesis by blast
qed

theorem default_language_Farsi_witness:
  "''Farsi'' \<in> name ` set demo_Language
   \<and> distinct (map val demo_Language)
   \<and> Image_open demo_libs (ext demo_world) demo_png = (Inr ''PNG'', 0)
   \<and> Language_getattr demo_Language ''Farsi'' = Some \<lparr>name = ''Farsi'', val = ''fas''\<rparr>
   \<and> image_to_string demo_libs 0 ''PNG'' ''fas'' = (Inr ''text in fas'', 1)
   \<and> read demo_upload = Inr demo_png
   \<and> b64decode demo_libs ''iVBORw=='' = Inr demo_png
   \<and> perform_ocr_tesseract demo_Language demo_libs demo_upload None demo_world =
       (JSONResponse (JObj [(''language'', JStr ''Farsi''), (''extracted_text'', JStr ''text in fas'')]),
        demo_world\<lparr>ext := 1,
                    trace := [(CallRead, Returned), (CallImageOpen demo_png, Returned),
                              (CallImageToString ''PNG'' ''fas'', Returned)]\<rparr>)
   \<and> perform_ocr_base46_tesseract demo_Language demo_libs ''iVBORw=='' None demo_world =
       (JSONResponse (JObj [(''language'', JStr ''Farsi''), (''extracted_text'', JStr ''text in fas'')]),
        demo_world\<lparr>ext := 1,
                    trace := [(CallB64decode ''iVBORw=='', Returned), (CallImageOpen demo_png, Returned),
                              (CallImageToString ''PNG'' ''fas'', Returned)]\<rparr>)"
proof -
  have a: "''Farsi'' \<in> name ` set demo_Language" by (simp add: demo_Language_def)
  have a': "distinct (map val demo_Language)" by (simp add: demo_Language_def)
  have b: "Image_open demo_libs (ext demo_world) demo_png = (Inr ''PNG'', 0)"
    by (simp add: demo_open demo_world_simps)
  have c: "image_to_string demo_libs 0 ''PNG'' ''fas'' = (Inr ''text in fas'', 1)"
    by (simp add: demo_libs_simps)
  have d: "read demo_upload = Inr demo_png" by (simp add: demo_upload_def)
  have e: "b64decode demo_libs ''iVBORw=='' = Inr demo_png"
    by (rule demo_png_b64decode)
  have t: "trace demo_world = []" by (simp add: demo_world_def)
  from default_language_Farsi[OF a a' b, of demo_upload "''iVBORw==''"] demo_Farsi
  have "\<forall>r x. image_to_string demo_libs 0 ''PNG'' ''fas'' = (r, x) \<longrightarrow>
            (read demo_upload = Inr demo_png \<longrightarrow>
               perform_ocr_tesseract demo_Language demo_libs demo_upload None demo_world =
                 ((case r of
                     Inl e \<Rightarrow> HTTPException 500 (message_error ''Error during OCR'' e)
                   | Inr t \<Rightarrow> JSONResponse (JObj [(''language'', JStr ''Farsi''),
                                                  (''extracted_text'', JStr t)])),
                  demo_world\<lparr>ext := x,
                     trace := trace demo_world @ [(CallRead, Returned), (CallImageOpen demo_png, Returned),
                                          (CallImageToString ''PNG'' ''fas'', outcome_of r)]\<rparr>))
          \<and> (b64decode demo_libs ''iVBORw=='' = Inr demo_png \<longrightarrow>
               perform_ocr_base46_tesseract demo_Language demo_libs ''iVBORw=='' None demo_world =
                 ((case r of
                     Inl e \<Rightarrow> HTTPException 500 (message_error ''Error during OCR'' e)
                   | Inr t \<Rightarrow> JSONResponse (JObj [(''language'', JStr ''Farsi''),
                                                  (''extracted_text'', JStr t)])),
                  demo_world\<lparr>ext := x,
                     trace := trace demo_world @ [(CallB64decode ''iVBORw=='', Returned), (CallImageOpen demo_png, Returned),
                                          (CallImageToString ''PNG'' ''fas'', outcome_of r)]\<rparr>))"
    by auto
  with c d e t a a' b demo_Farsi show ?thesis by simp
qed

section \<open>The suffix of the staged file\<close>

text \<open>
  C8 (amended).  For every image that \<open>Image.open\<close> opens and \<open>verify\<close>
  accepts, the derived suffix is a dot followed by the detected format name
  lower-cased, the temporary file's name ends with it, and the suffix is empty when
  the format is \<open>None\<close> or the empty string.
\<close>

theorem suffix_hint:
  assumes "Image_open E (ext w) data = (Inr img, x)" and "verify E img = Inr u"
  shows "\<exists>sfx.
           fst (open_verify E (Inr data, w)) = Inr (data, sfx)
         \<and> sfx = (case format E img of
                    None \<Rightarrow> ''''
                  | Some f \<Rightarrow> if f = '''' then '''' else CHR ''.'' # lower f)
         \<and> (\<forall>tmp w1. sniff_and_stage E (Inr data, w) = (Staged tmp, w1) \<longrightarrow>
                (\<exists>stem. tmp = stem @ sfx))"
  using assms
  by (auto simp: open_verify_def sniff_and_stage_def stage_file_def pure_call_def ext_call_def
      suffix_of_def Let_def split: sum.splits option.splits prod.splits if_splits)

text \<open>
  C8 as stated fails: for the format \<open>PNG\<close> the suffix is \<open>.png\<close>, which is not
  the format name lower-cased, \<open>png\<close>.
\<close>

theorem suffix_hint_counterexample:
  "Image_open demo_libs (ext demo_world) demo_png = (Inr ''PNG'', 0)
   \<and> verify demo_libs ''PNG'' = Inr ()
   \<and> format demo_libs ''PNG'' = Some ''PNG''
   \<and> fst (open_verify demo_libs (Inr demo_png, demo_world)) = Inr (demo_png, ''.png'')
   \<and> lower ''PNG'' = ''png''
   \<and> ''.png'' \<noteq> lower ''PNG''"
  by (simp add: demo_open_verify demo_open demo_verify demo_format lower_PNG demo_world_simps)

theorem suffix_hint_witness:
  "Image_open demo_libs (ext demo_world) demo_png = (Inr ''PNG'', 0)
   \<and> verify demo_libs ''PNG'' = Inr ()
   \<and> fst (open_verify demo_libs (Inr demo_png, demo_world)) = Inr (demo_png, ''.png'')
   \<and> fst (sniff_and_stage demo_libs (Inr demo_png, demo_world)) = Staged ''/tmp/tmp.png''"
proof -
  have a: "Image_open demo_libs (ext demo_world) demo_png = (Inr ''PNG'', 0)"
    by (simp add: demo_open demo_world_simps)
  have b: "verify demo_libs ''PNG'' = Inr ()" by (rule demo_verify)
  from suffix_hint[OF a b]
  have o: "fst (open_verify demo_libs (Inr demo_png, demo_world)) = Inr (demo_png, ''.png'')"
    by (simp add: demo_format lower_PNG)
  have "fst (sniff_and_stage demo_libs (Inr demo_png, demo_world)) = Staged ''/tmp/tmp.png''"
    by (simp add: sniff_and_stage_def demo_open_verify stage_file_def ext_call_def Let_def
        demo_world_def demo_libs_simps)
  with a b o show ?thesis by simp
qed

section \<open>Purging the accelerator cache around inference\<close>

lemma DeepSeekOCR_infer_trace:
  "\<exists>new. trace (snd (DeepSeekOCR_infer E p w)) = trace w @ (CallEmptyCache, Returned) # new
     \<and> ((\<exists>e. new = [(CallTemporaryDirectory, Raised e)])
        \<or> (\<exists>a e. new = [(CallTemporaryDirectory, Returned), (CallModelInfer a, Raised e)])
        \<or> (\<exists>a path out. new = [(CallTemporaryDirectory, Returned), (CallModelInfer a, Returned),
                                 (CallEmptyCache, Returned), (CallOpenRead path, out)]))"
  by (auto simp: DeepSeekOCR_infer_def infer_body_def model_infer_call_def open_read_def
      cuda_empty_cache_def ext_call_def pure_call_def split: sum.splits prod.splits option.splits)

text \<open>
  C6 (amended).  Every call of \<open>DeepSeekOCR.infer\<close> purges the cache first, before
  anything else and so before the model inference call; and whenever the model
  inference call returns, the very next call is a second purge.
\<close>

theorem purge_around_inference:
  "\<exists>new. trace (snd (DeepSeekOCR_infer E p w)) = trace w @ (CallEmptyCache, Returned) # new
     \<and> (\<forall>pre a post. new = pre @ (CallModelInfer a, Returned) # post \<longrightarrow>
            (\<exists>post'. post = (CallEmptyCache, Returned) # post'))"
proof -
  from DeepSeekOCR_infer_trace[of E p w] obtain new where
    t: "trace (snd (DeepSeekOCR_infer E p w)) = trace w @ (CallEmptyCache, Returned) # new"
    and c: "(\<exists>e. new = [(CallTemporaryDirectory, Raised e)])
        \<or> (\<exists>a e. new = [(CallTemporaryDirectory, Returned), (CallModelInfer a, Raised e)])
        \<or> (\<exists>a path out. new = [(CallTemporaryDirectory, Returned), (CallModelInfer a, Returned),
                                 (CallEmptyCache, Returned), (CallOpenRead path, out)])"
    by blast
  have "\<forall>pre a post. new = pre @ (CallModelInfer a, Returned) # post \<longrightarrow>
            (\<exists>post'. post = (CallEmptyCache, Returned) # post')"
    using c by (auto simp: append_eq_Cons_conv)
  with t show ?thesis by blast
qed

text \<open>
  C6 as stated fails: when the model inference call raises, \<open>infer\<close> makes no
  further call, so no purge follows it.
\<close>

theorem purge_around_inference_counterexample:
  "DeepSeekOCR_infer failing_libs ''/tmp/tmp.png'' demo_world =
     (Inl (Exception ''CUDA out of memory''),
      demo_world\<lparr>ext := 1,
        trace := [(CallEmptyCache, Returned), (CallTemporaryDirectory, Returned),
           (CallModelInfer
              \<lparr>prompt = DeepSeekOCR_prompt, image_file = ''/tmp/tmp.png'',
               output_path = ''/tmp/dir'', base_size = 1024, image_size = 640,
               crop_mode = True, save_results = True, test_compress = True\<rparr>,
            Raised (Exception ''CUDA out of memory''))]\<rparr>)"
  by (simp add: DeepSeekOCR_infer_def infer_body_def model_infer_call_def
      cuda_empty_cache_def ext_call_def failing_libs_simps demo_libs_simps demo_world_def)

theorem purge_around_inference_witness:
  "DeepSeekOCR_infer demo_libs ''/tmp/tmp.png'' demo_world =
     (Inr ''# A'',
      demo_world\<lparr>ext := 1,
        trace := [(CallEmptyCache, Returned), (CallTemporaryDirectory, Returned),
           (CallModelInfer
              \<lparr>prompt = DeepSeekOCR_prompt, image_file = ''/tmp/tmp.png'',
               output_path = ''/tmp/dir'', base_size = 1024, image_size = 640,
               crop_mode = True, save_results = True, test_compress = True\<rparr>, Returned),
           (CallEmptyCache, Returned),
           (CallOpenRead ''/tmp/dir/result.mmd'', Returned)]\<rparr>)"
  using purge_around_inference[of demo_libs "''/tmp/tmp.png''" demo_world]
  by (simp add: DeepSeekOCR_infer_def infer_body_def model_infer_call_def open_read_def
      pure_call_def cuda_empty_cache_def ext_call_def demo_libs_simps demo_world_def)

section \<open>The classical handlers keep no state\<close>

lemma fst_case_sum_tail:
  "fst (case p of (Inl f, w) \<Rightarrow> (f, w) | (Inr t, w) \<Rightarrow> h t w) =
     (case fst p of Inl f \<Rightarrow> f | Inr t \<Rightarrow> fst (h t (snd p)))"
  by (cases p) (auto split: sum.splits)

lemma ocr_or_500_deterministic:
  assumes "\<forall>x x' img lang. fst (image_to_string E x img lang) = fst (image_to_string E x' img lang)"
  shows "fst (ocr_or_500 E img lang w1) = fst (ocr_or_500 E img lang w2)"
proof -
  obtain r1 x1 where a: "image_to_string E (ext w1) img lang = (r1, x1)" by force
  obtain r2 x2 where b: "image_to_string E (ext w2) img lang = (r2, x2)" by force
  from assms a b have "r1 = r2" by (metis fst_conv)
  with a b show ?thesis
    by (simp add: ocr_or_500_def ext_call_def split: sum.splits)
qed

lemma decode_open_ocr_same:
  assumes det: "\<forall>x x' img lang. fst (image_to_string E x img lang) = fst (image_to_string E x' img lang)"
    and opn: "\<forall>x x' data. forget_text (fst (Image_open E x data)) = forget_text (fst (Image_open E x' data))"
    and h: "\<And>t wa wb. fst (h t wa) = fst (h t wb)"
    and F: "\<And>w. F w =
       (case pure_call c0 r0 w of
          (Inl e, w1) \<Rightarrow> (HTTPException 400 (message_error m e), w1)
        | (Inr image_data, w1) \<Rightarrow>
            (case ext_call (CallImageOpen image_data) (\<lambda>x. Image_open E x image_data) w1 of
               (Inl e, w2) \<Rightarrow> (HTTPException 400 (message_error m e), w2)
             | (Inr img, w2) \<Rightarrow>
                 (case ocr_or_500 E img lang w2 of
                    (Inl failure, w3) \<Rightarrow> (failure, w3)
                  | (Inr t, w3) \<Rightarrow> h t w3)))"
  shows "same_but_error_text (fst (F wa)) (fst (F wb))"
proof (cases r0)
  case (Inl e)
  then show ?thesis by (simp add: F pure_call_def)
next
  case (Inr data)
  obtain oa ya where a: "Image_open E (ext wa) data = (oa, ya)" by force
  obtain ob yb where b: "Image_open E (ext wb) data = (ob, yb)" by force
  from opn a b have fo: "forget_text oa = forget_text ob" by (metis fst_conv)
  show ?thesis
  proof (cases oa)
    case (Inl e1)
    with fo obtain e2 where "ob = Inl e2" by (cases ob) (auto simp: forget_text_def)
    with Inl \<open>r0 = Inr data\<close> a b show ?thesis
      by (auto simp: F pure_call_def ext_call_def)
  next
    case (Inr img)
    with fo have ob: "ob = Inr img" by (cases ob) (auto simp: forget_text_def)
    have "fst (F wa) = fst (F wb)"
      using \<open>r0 = Inr data\<close> a b Inr ob
        ocr_or_500_deterministic[OF det, of img lang
          "wa\<lparr>ext := ya, trace := trace wa @ [(c0, Returned), (CallImageOpen data, Returned)]\<rparr>"
          "wb\<lparr>ext := yb, trace := trace wb @ [(c0, Returned), (CallImageOpen data, Returned)]\<rparr>"]
      by (auto simp: F pure_call_def ext_call_def fst_case_sum_tail h split: sum.splits)
    then show ?thesis by simp
  qed
qed

text \<open>
  C7 (amended).  Let the recognition function give a result that does not depend on
  the state outside the handlers, and let \<open>Image.open\<close> depend on that state in
  the text of its exception only.  Then for every route of the classical service and
  any two worlds (whatever earlier calls left behind), identical input and language
  give responses with the same status that are identical, and so carry the same
  extracted text, except that two 400 responses may differ in their \<open>error\<close> text.
\<close>

theorem classical_ocr_deterministic:
  assumes "\<forall>x x' img lang. fst (image_to_string E x img lang) = fst (image_to_string E x' img lang)"
    and "\<forall>x x' data. forget_text (fst (Image_open E x data)) = forget_text (fst (Image_open E x' data))"
  shows "same_but_error_text (fst (tesseract_app L E req w1)) (fst (tesseract_app L E req w2))
       \<and> status_code (fst (tesseract_app L E req w1)) = status_code (fst (tesseract_app L E req w2))
       \<and> (\<forall>body. fst (tesseract_app L E req w1) = JSONResponse body \<longrightarrow>
             fst (tesseract_app L E req w2) = JSONResponse body)"
proof -
  have s: "same_but_error_text (fst (tesseract_app L E req w1)) (fst (tesseract_app L E req w2))"
  proof (cases req)
    case (T_file_to_base64 f)
    then show ?thesis
      by (simp add: tesseract_app_def file_to_base64_def pure_call_def split: sum.splits)
  next
    case (T_ocr f lf)
    show ?thesis
    proof (cases "Language_getattr L ''Farsi''")
      case None
      with T_ocr show ?thesis by (simp add: tesseract_app_def perform_ocr_tesseract_def)
    next
      case (Some farsi)
      from decode_open_ocr_same[OF assms,
          where h = "\<lambda>t w3. (ocr_result (name (case lf of None \<Rightarrow> farsi | Some l \<Rightarrow> l)) t, w3)"
            and F = "perform_ocr_tesseract L E f lf" and ?c0.0 = CallRead and ?r0.0 = "read f"
            and m = "''Could not process the uploaded file.''"
            and lang = "val (case lf of None \<Rightarrow> farsi | Some l \<Rightarrow> l)"
            and wa = w1 and wb = w2] T_ocr Some
      show ?thesis
        by (simp add: tesseract_app_def perform_ocr_tesseract_def Let_def)
    qed
  next
    case (T_ocr_base64 s lf)
    show ?thesis
    proof (cases "Language_getattr L ''Farsi''")
      case None
      with T_ocr_base64 show ?thesis
        by (simp add: tesseract_app_def perform_ocr_base46_tesseract_def)
    next
      case (Some farsi)
      from decode_open_ocr_same[OF assms,
          where h = "\<lambda>t w3. (ocr_result (name (case lf of None \<Rightarrow> farsi | Some l \<Rightarrow> l)) t, w3)"
            and F = "perform_ocr_base46_tesseract L E s lf" and ?c0.0 = "CallB64decode s"
            and ?r0.0 = "b64decode E s"
            and m = "''Could not process the base64 string.''"
            and lang = "val (case lf of None \<Rightarrow> farsi | Some l \<Rightarrow> l)"
            and wa = w1 and wb = w2] T_ocr_base64 Some
      show ?thesis
        by (simp add: tesseract_app_def perform_ocr_base46_tesseract_def Let_def)
    qed
  next
    case (T_ocr_base64_json request)
    show ?thesis
    proof (cases "Language_call L (language request)")
      case None
      with T_ocr_base64_json show ?thesis
        by (simp add: tesseract_app_def perform_ocr_base64_json_tesseract_def Let_def)
    next
      case (Some m0)
      from decode_open_ocr_same[OF assms,
          where h = "\<lambda>t w3. (case Language_call L (language request) of
                              None \<Rightarrow> (Unhandled (Exception (language request)), w3)
                            | Some m \<Rightarrow> (ocr_result (name m) t, w3))"
            and F = "perform_ocr_base64_json_tesseract L E request"
            and ?c0.0 = "CallB64decode (base64_string request)"
            and ?r0.0 = "b64decode E (base64_string request)"
            and m = "''Could not process the base64 string.''"
            and lang = "language request"
            and wa = w1 and wb = w2] T_ocr_base64_json Some
      show ?thesis
        by (simp add: tesseract_app_def perform_ocr_base64_json_tesseract_def Let_def)
    qed
  qed
  then have "status_code (fst (tesseract_app L E req w1)) = status_code (fst (tesseract_app L E req w2))"
    by auto
  moreover from s have "\<forall>body. fst (tesseract_app L E req w1) = JSONResponse body \<longrightarrow>
             fst (tesseract_app L E req w2) = JSONResponse body"
    by auto
  ultimately show ?thesis using s by blast
qed

lemma addr_libs_simps:
  "Image_open addr_libs x data =
     (if take 4 data = demo_png then Inr ''PNG''
      else Inl (UnidentifiedImageError
             (''cannot identify image file <_io.BytesIO object at 0x7f''
                @ replicate x (CHR ''0'') @ ''>'')),
      Suc x)"
  "image_to_string addr_libs = image_to_string demo_libs"
  by (simp_all add: addr_libs_def)

lemma addr_text_run:
  "tesseract_app demo_Language addr_libs (T_ocr text_upload None) w =
     (HTTPException 400
        (JObj [(''message'', JStr ''Could not process the uploaded file.''),
               (''error'', JStr (''cannot identify image file <_io.BytesIO object at 0x7f''
                                   @ replicate (ext w) (CHR ''0'') @ ''>''))]),
      w\<lparr>ext := Suc (ext w),
        trace := trace w @ [(CallRead, Returned),
          (CallImageOpen [0x68, 0x69],
           Raised (UnidentifiedImageError
             (''cannot identify image file <_io.BytesIO object at 0x7f''
                @ replicate (ext w) (CHR ''0'') @ ''>'')))]\<rparr>)"
  by (simp add: tesseract_app_def perform_ocr_tesseract_def demo_Farsi pure_call_def ext_call_def
      text_upload_def addr_libs_simps message_error_def demo_png_def)

lemma addr_demo_run:
  "fst (tesseract_app demo_Language addr_libs (T_ocr demo_upload None) w) =
     JSONResponse (JObj [(''language'', JStr ''Farsi''), (''extracted_text'', JStr ''text in fas'')])"
  by (simp add: tesseract_app_def perform_ocr_tesseract_def demo_Farsi pure_call_def ext_call_def
      demo_upload_def demo_png_def addr_libs_simps demo_libs_simps ocr_or_500_def ocr_result_def)

text \<open>
  C7 as stated fails: with a deterministic recognition function, the same upload sent
  twice in a row is answered with two different bodies, because the text of the
  exception of \<open>Image.open\<close> names an object of the request by its address.
\<close>

theorem classical_ocr_deterministic_counterexample:
  "image_to_string addr_libs = image_to_string demo_libs
   \<and> fst (tesseract_app demo_Language addr_libs (T_ocr text_upload None) demo_world) =
       HTTPException 400
         (JObj [(''message'', JStr ''Could not process the uploaded file.''),
                (''error'', JStr ''cannot identify image file <_io.BytesIO object at 0x7f>'')])
   \<and> fst (tesseract_app demo_Language addr_libs (T_ocr text_upload None)
           (snd (tesseract_app demo_Language addr_libs (T_ocr text_upload None) demo_world))) =
       HTTPException 400
         (JObj [(''message'', JStr ''Could not process the uploaded file.''),
                (''error'', JStr ''cannot identify image file <_io.BytesIO object at 0x7f0>'')])
   \<and> fst (tesseract_app demo_Language addr_libs (T_ocr text_upload None) demo_world) \<noteq>
     fst (tesseract_app demo_Language addr_libs (T_ocr text_upload None)
           (snd (tesseract_app demo_Language addr_libs (T_ocr text_upload None) demo_world)))"
  by (simp add: addr_text_run addr_libs_simps demo_world_simps)

theorem classical_ocr_deterministic_witness:
  "(\<forall>x x' img lang. fst (image_to_string addr_libs x img lang) =
                      fst (image_to_string addr_libs x' img lang))
   \<and> (\<forall>x x' data. forget_text (fst (Image_open addr_libs x data)) =
                    forget_text (fst (Image_open addr_libs x' data)))
   \<and> status_code (fst (tesseract_app demo_Language addr_libs (T_ocr text_upload None) demo_world)) =
       Some 400
   \<and> status_code (fst (tesseract_app demo_Language addr_libs (T_ocr text_upload None)
         (demo_world\<lparr>ext := 7, trace := [(CallEmptyCache, Returned)]\<rparr>))) = Some 400
   \<and> fst (tesseract_app demo_Language addr_libs (T_ocr demo_upload None) demo_world) =
       JSONResponse (JObj [(''language'', JStr ''Farsi''), (''extracted_text'', JStr ''text in fas'')])
   \<and> fst (tesseract_app demo_Language addr_libs (T_ocr demo_upload None)
            (demo_world\<lparr>ext := 7, trace := [(CallEmptyCache, Returned)]\<rparr>)) =
       JSONResponse (JObj [(''language'', JStr ''Farsi''), (''extracted_text'', JStr ''text in fas'')])"
proof -
  let ?w = "demo_world\<lparr>ext := 7, trace := [(CallEmptyCache, Returned)]\<rparr>"
  have d: "\<forall>x x' img lang. fst (image_to_string addr_libs x img lang) =
                      fst (image_to_string addr_libs x' img lang)"
    by (simp add: addr_libs_simps demo_libs_simps)
  have o: "\<forall>x x' data. forget_text (fst (Image_open addr_libs x data)) =
                    forget_text (fst (Image_open addr_libs x' data))"
    by (simp add: addr_libs_simps forget_text_def)
  have a: "status_code (fst (tesseract_app demo_Language addr_libs (T_ocr text_upload None) demo_world)) =
       Some 400"
    by (simp add: addr_text_run)
  have b: "fst (tesseract_app demo_Language addr_libs (T_ocr demo_upload None) demo_world) =
       JSONResponse (JObj [(''language'', JStr ''Farsi''), (''extracted_text'', JStr ''text in fas'')])"
    by (rule addr_demo_run)
  note t = classical_ocr_deterministic[OF d o, of demo_Language _ demo_world ?w]
  from t[of "T_ocr text_upload None", THEN conjunct2, THEN conjunct1] a
  have a': "status_code (fst (tesseract_app demo_Language addr_libs (T_ocr text_upload None) ?w)) =
       Some 400"
    by (simp only:)
  from t[of "T_ocr demo_upload None", THEN conjunct2, THEN conjunct2, rule_format, OF b]
  have b': "fst (tesseract_app demo_Language addr_libs (T_ocr demo_upload None) ?w) =
       JSONResponse (JObj [(''language'', JStr ''Farsi''), (''extracted_text'', JStr ''text in fas'')])" .
  show ?thesis
    apply (intro conjI)
         apply (rule d)
        apply (rule o)
       apply (rule a)
      apply (rule a')
     apply (rule b)
    apply (rule b')
    done
qed

section \<open>Temporary files and directories\<close>

lemma model_infer_call_frame:
  assumes "model_infer_call E args w = (r, w')"
  shows "files w' = files w \<and> dom (dirs w') = dom (dirs w) \<and> locked w' = locked w"
  using assms
  by (auto simp: model_infer_call_def split: prod.splits option.splits if_splits)

lemma infer_body_frame:
  assumes "infer_body E p d w = (r, w')"
  shows "files w' = files w \<and> dom (dirs w') = dom (dirs w) \<and> locked w' = locked w"
proof -
  let ?args = "\<lparr>prompt = DeepSeekOCR_prompt, image_file = p, output_path = d,
              base_size = 1024, image_size = 640, crop_mode = True, save_results = True,
              test_compress = True\<rparr>"
  obtain r1 w1 where m: "model_infer_call E ?args w = (r1, w1)" by force
  note f = model_infer_call_frame[OF m]
  from assms m have "files w' = files w1 \<and> dom (dirs w') = dom (dirs w1) \<and> locked w' = locked w1"
    by (auto simp: infer_body_def open_read_def pure_call_def cuda_empty_cache_def split: sum.splits)
  with f show ?thesis by simp
qed

lemma DeepSeekOCR_infer_frame:
  assumes "DeepSeekOCR_infer E p w = (r, w')"
  shows "files w' = files w \<and> dom (dirs w') \<subseteq> dom (dirs w) \<and> locked w' = locked w"
proof -
  let ?w0 = "cuda_empty_cache E w"
  obtain r1 w1 where t: "ext_call CallTemporaryDirectory (TemporaryDirectory E) ?w0 = (r1, w1)"
    by force
  have w1: "files w1 = files w \<and> dirs w1 = dirs w \<and> locked w1 = locked w"
    using t by (auto simp: ext_call_def cuda_empty_cache_def split: prod.splits)
  show ?thesis
  proof (cases r1)
    case (Inl e)
    with assms t w1 show ?thesis
      by (auto simp: DeepSeekOCR_infer_def)
  next
    case (Inr d)
    obtain r2 w2 where b: "infer_body E p d (w1\<lparr>dirs := (dirs w1)(d \<mapsto> Map.empty)\<rparr>) = (r2, w2)"
      by force
    note f = infer_body_frame[OF b]
    from assms t Inr b have "w' = w2\<lparr>dirs := (dirs w2)(d := None)\<rparr>"
      by (simp add: DeepSeekOCR_infer_def)
    with f w1 show ?thesis
      by auto
  qed
qed

lemma DeepSeekOCR_infer_removes_dir:
  assumes "TemporaryDirectory E (empty_cache E (ext w)) = (Inr d, x)"
  shows "dirs (snd (DeepSeekOCR_infer E p w)) d = None"
  using assms
  by (simp add: DeepSeekOCR_infer_def ext_call_def cuda_empty_cache_def split: prod.splits)

lemma stage_file_frame:
  assumes "stage_file E data sfx w = (st, w')"
  shows "staged_frame w st w'"
  using assms
  by (auto simp: staged_frame_def stage_file_def ext_call_def Let_def
      split: prod.splits sum.splits if_splits)

lemma open_verify_frame:
  assumes "open_verify E (r0, w\<lparr>trace := t\<rparr>) = (r, w')"
  shows "files w' = files w \<and> dirs w' = dirs w \<and> locked w' = locked w"
  using assms
  by (auto simp: open_verify_def pure_call_def ext_call_def split: prod.splits sum.splits)

lemma sniff_and_stage_frame:
  assumes "sniff_and_stage E (r0, w\<lparr>trace := t\<rparr>) = (st, w')"
  shows "staged_frame w st w'"
proof -
  obtain r1 w1 where o: "open_verify E (r0, w\<lparr>trace := t\<rparr>) = (r1, w1)" by force
  note f = open_verify_frame[OF o]
  show ?thesis
  proof (cases r1)
    case (Inl e)
    with assms o f show ?thesis
      by (auto simp: sniff_and_stage_def staged_frame_def)
  next
    case (Inr p)
    obtain data sfx where p: "p = (data, sfx)" by force
    from assms o Inr p have s: "stage_file E data sfx w1 = (st, w')"
      by (simp add: sniff_and_stage_def)
    from stage_file_frame[OF s] f show ?thesis
      by (auto simp: staged_frame_def split: staged.splits)
  qed
qed

lemma before_lock_frame:
  assumes "before_lock E req w = (st, w')"
  shows "staged_frame w st w'"
proof (cases req)
  case (D_file_to_base64 f)
  with assms show ?thesis
    by (auto simp: staged_frame_def before_lock_def file_to_base64_def pure_call_def
        split: sum.splits)
next
  case (D_ocr f)
  with assms have "sniff_and_stage E
      (read f, w\<lparr>trace := trace w @ [(CallRead, outcome_of (read f))]\<rparr>) = (st, w')"
    by (simp add: before_lock_def pure_call_def)
  then show ?thesis by (rule sniff_and_stage_frame)
next
  case (D_ocr_base64 s)
  with assms have "sniff_and_stage E
      (b64decode E s,
       w\<lparr>trace := trace w @ [(CallB64decode s, outcome_of (b64decode E s))]\<rparr>) = (st, w')"
    by (simp add: before_lock_def pure_call_def)
  then show ?thesis by (rule sniff_and_stage_frame)
next
  case (D_ocr_base64_json request)
  with assms have "sniff_and_stage E
      (b64decode E (base64_string request),
       w\<lparr>trace := trace w @ [(CallB64decode (base64_string request),
                                outcome_of (b64decode E (base64_string request)))]\<rparr>) = (st, w')"
    by (simp add: before_lock_def pure_call_def)
  then show ?thesis by (rule sniff_and_stage_frame)
qed

lemma infer_and_respond_frame:
  assumes "infer_and_respond E tmp w = (r, w')"
  shows "files w' = (files w)(tmp := None) \<and> dom (dirs w') \<subseteq> dom (dirs w) \<and> \<not> locked w'"
proof -
  obtain r1 w1 where i: "DeepSeekOCR_infer E tmp w = (r1, w1)" by force
  note f = DeepSeekOCR_infer_frame[OF i]
  from assms i have "w' = w1\<lparr>locked := False, files := (files w1)(tmp := None)\<rparr>"
    by (simp add: infer_and_respond_def)
  with f show ?thesis by simp
qed

lemma tesseract_app_frame:
  "files (snd (tesseract_app L E req w)) = files w \<and> dirs (snd (tesseract_app L E req w)) = dirs w"
  by (cases req)
     (auto simp: tesseract_app_def file_to_base64_def perform_ocr_tesseract_def
        perform_ocr_base46_tesseract_def perform_ocr_base64_json_tesseract_def
        ocr_or_500_def pure_call_def ext_call_def Let_def
        split: sum.splits option.splits prod.splits)

section \<open>The lock and the worker threads\<close>

lemma count_list_update:
  "i < length xs \<Longrightarrow>
   length (filter P (xs[i := y])) + (if P (xs ! i) then 1 else 0) =
   length (filter P xs) + (if P y then 1 else 0)"
proof (induction xs arbitrary: i)
  case Nil
  then show ?case by simp
next
  case (Cons x xs)
  then show ?case by (cases i) auto
qed

lemma n_inferring_update:
  assumes "i < length (tasks s)"
  shows "n_inferring \<lparr>state = w, tasks = (tasks s)[i := t]\<rparr>
           + (if in_thread (tasks s ! i) then 1 else 0)
         = n_inferring s + (if in_thread t then 1 else 0)"
  using count_list_update[OF assms, of in_thread t] by (simp add: n_inferring_def)

lemma before_lock_locked:
  assumes "before_lock E req w = (st, w')"
  shows "locked w' = locked w"
  using before_lock_frame[OF assms] by (simp add: staged_frame_def)

lemma infer_and_respond_unlocked:
  assumes "infer_and_respond E tmp w = (r, w')"
  shows "\<not> locked w'"
  using infer_and_respond_frame[OF assms] by simp

lemma resume_inv:
  assumes "resume E i s = Some s'" and "lock_inv s"
  shows "lock_inv s'"
proof -
  from assms(1) have i: "i < length (tasks s)"
    by (auto simp: resume_def split: if_splits)
  show ?thesis
  proof (cases "tasks s ! i")
    case (Received req)
    obtain st w where b: "before_lock E req (state s) = (st, w)" by force
    from before_lock_locked[OF b] have l: "locked w = locked (state s)" .
    show ?thesis
    proof (cases st)
      case (Finished r)
      with assms(1) i Received b have s': "s' = \<lparr>state = w, tasks = (tasks s)[i := Done r]\<rparr>"
        by (simp add: resume_def)
      from n_inferring_update[OF i, of w "Done r"] Received assms(2) l s'
      show ?thesis by (simp add: lock_inv_def)
    next
      case (Staged tmp)
      with assms(1) i Received b have s': "s' = \<lparr>state = w, tasks = (tasks s)[i := AtLock tmp]\<rparr>"
        by (simp add: resume_def)
      from n_inferring_update[OF i, of w "AtLock tmp"] Received assms(2) l s'
      show ?thesis by (simp add: lock_inv_def)
    qed
  next
    case (AtLock tmp)
    with assms(1) i have nl: "\<not> locked (state s)"
      and s': "s' = \<lparr>state = (state s)\<lparr>locked := True\<rparr>, tasks = (tasks s)[i := InThread tmp]\<rparr>"
      by (auto simp: resume_def split: if_splits)
    from n_inferring_update[OF i, of "(state s)\<lparr>locked := True\<rparr>" "InThread tmp"] AtLock assms(2) nl s'
    show ?thesis by (simp add: lock_inv_def)
  next
    case (InThread tmp)
    obtain r w where f: "infer_and_respond E tmp (state s) = (r, w)" by force
    with assms(1) i InThread have s': "s' = \<lparr>state = w, tasks = (tasks s)[i := Done r]\<rparr>"
      by (simp add: resume_def)
    from i have "tasks s ! i \<in> set (tasks s)" by simp
    with InThread have "\<exists>t \<in> set (tasks s). in_thread t" by (metis in_thread.simps(1))
    then have "n_inferring s \<noteq> 0"
      by (simp add: n_inferring_def filter_empty_conv)
    with assms(2) have "n_inferring s = 1" by (simp add: lock_inv_def split: if_splits)
    with n_inferring_update[OF i, of w "Done r"] InThread infer_and_respond_unlocked[OF f] s'
    show ?thesis by (simp add: lock_inv_def)
  next
    case (Done r)
    with assms(1) i show ?thesis by (simp add: resume_def)
  qed
qed

lemma step_inv:
  assumes "step E a s = Some s'" and "lock_inv s"
  shows "lock_inv s'"
proof (cases a)
  case (Arrive req)
  with assms show ?thesis by (auto simp: lock_inv_def n_inferring_def)
next
  case (Run i)
  with assms resume_inv show ?thesis by auto
qed

lemma run_inv:
  assumes "run E sch s = Some s'" and "lock_inv s"
  shows "lock_inv s'"
  using assms
proof (induction sch arbitrary: s)
  case Nil
  then show ?case by simp
next
  case (Cons a sch)
  then show ?case by (auto split: option.splits dest: step_inv)
qed

lemma in_thread_locked:
  assumes "lock_inv s" and "i < length (tasks s)" and "in_thread (tasks s ! i)"
  shows "locked (state s)"
proof -
  from assms(2) have "tasks s ! i \<in> set (tasks s)" by simp
  with assms(3) have "\<exists>t \<in> set (tasks s). in_thread t" by blast
  then have "n_inferring s \<noteq> 0" by (simp add: n_inferring_def filter_empty_conv)
  with assms(1) show ?thesis by (simp add: lock_inv_def split: if_splits)
qed

lemma resume_in_thread:
  assumes "i < length (tasks s)" and "in_thread (tasks s ! i)"
  shows "\<exists>tmp r w. tasks s ! i = InThread tmp
           \<and> infer_and_respond E tmp (state s) = (r, w)
           \<and> resume E i s = Some \<lparr>state = w, tasks = (tasks s)[i := Done r]\<rparr>"
proof -
  from assms(2) obtain tmp where t: "tasks s ! i = InThread tmp"
    by (cases "tasks s ! i") auto
  obtain r w where f: "infer_and_respond E tmp (state s) = (r, w)" by force
  with assms(1) t show ?thesis by (simp add: resume_def)
qed

section \<open>No temporary file remains\<close>

lemma staged_paths_iff:
  "y \<in> staged_paths s \<longleftrightarrow> (\<exists>t \<in> set (tasks s). staged_path t = Some y)"
  by (force simp: staged_paths_def map_filter_def image_iff)

lemma staged_paths_update_ge:
  assumes "i < length (tasks s)"
  shows "staged_paths s
           \<subseteq> staged_paths \<lparr>state = w, tasks = (tasks s)[i := t]\<rparr>
             \<union> set_option (staged_path (tasks s ! i))"
proof
  fix y
  assume "y \<in> staged_paths s"
  then obtain x where x: "x \<in> set (tasks s)" "staged_path x = Some y"
    by (auto simp: staged_paths_iff)
  then obtain j where j: "j < length (tasks s)" "tasks s ! j = x"
    by (auto simp: in_set_conv_nth)
  show "y \<in> staged_paths \<lparr>state = w, tasks = (tasks s)[i := t]\<rparr>
             \<union> set_option (staged_path (tasks s ! i))"
  proof (cases "j = i")
    case True
    with j x show ?thesis by simp
  next
    case False
    with j have "(tasks s)[i := t] ! j = x" by simp
    with j have "x \<in> set ((tasks s)[i := t])"
      by (metis length_list_update nth_mem)
    with x show ?thesis by (auto simp: staged_paths_iff)
  qed
qed

lemma staged_paths_update_new:
  assumes "i < length (tasks s)" and "staged_path t = Some tmp"
  shows "tmp \<in> staged_paths \<lparr>state = w, tasks = (tasks s)[i := t]\<rparr>"
proof -
  from assms(1) have "t \<in> set ((tasks s)[i := t])"
    by (simp add: set_update_memI)
  with assms(2) show ?thesis
    by (auto simp: staged_paths_iff)
qed

lemma resume_disk:
  assumes "resume E i s = Some s'"
  shows "dom (dirs (state s')) \<subseteq> dom (dirs (state s))
       \<and> dom (files (state s')) - staged_paths s' \<subseteq> dom (files (state s)) - staged_paths s"
proof -
  from assms have i: "i < length (tasks s)"
    by (auto simp: resume_def split: if_splits)
  show ?thesis
  proof (cases "tasks s ! i")
    case (Received req)
    obtain st w where b: "before_lock E req (state s) = (st, w)" by force
    note f = before_lock_frame[OF b]
    show ?thesis
    proof (cases st)
      case (Finished r)
      with assms i Received b have s': "s' = \<lparr>state = w, tasks = (tasks s)[i := Done r]\<rparr>"
        by (simp add: resume_def)
      from staged_paths_update_ge[OF i, of w "Done r"] Received
      have "staged_paths s \<subseteq> staged_paths s'" by (simp add: s')
      with f Finished s' show ?thesis by (auto simp: staged_frame_def)
    next
      case (Staged tmp)
      with assms i Received b have s': "s' = \<lparr>state = w, tasks = (tasks s)[i := AtLock tmp]\<rparr>"
        by (simp add: resume_def)
      from staged_paths_update_ge[OF i, of w "AtLock tmp"] Received
      have "staged_paths s \<subseteq> staged_paths s'" by (simp add: s')
      moreover from staged_paths_update_new[OF i, of "AtLock tmp" tmp w]
      have "tmp \<in> staged_paths s'" by (simp add: s')
      ultimately show ?thesis using f Staged s' by (auto simp: staged_frame_def)
    qed
  next
    case (AtLock tmp)
    with assms i have s': "s' = \<lparr>state = (state s)\<lparr>locked := True\<rparr>,
                                  tasks = (tasks s)[i := InThread tmp]\<rparr>"
      by (auto simp: resume_def split: if_splits)
    from staged_paths_update_ge[OF i, of "(state s)\<lparr>locked := True\<rparr>" "InThread tmp"] AtLock
    have "staged_paths s \<subseteq> insert tmp (staged_paths s')" by (simp add: s')
    moreover from staged_paths_update_new[OF i, of "InThread tmp" tmp "(state s)\<lparr>locked := True\<rparr>"]
    have "tmp \<in> staged_paths s'" by (simp add: s')
    ultimately show ?thesis using s' by auto
  next
    case (InThread tmp)
    obtain r w where f: "infer_and_respond E tmp (state s) = (r, w)" by force
    with assms i InThread have s': "s' = \<lparr>state = w, tasks = (tasks s)[i := Done r]\<rparr>"
      by (simp add: resume_def)
    from staged_paths_update_ge[OF i, of w "Done r"] InThread
    have "staged_paths s \<subseteq> insert tmp (staged_paths s')" by (simp add: s')
    with infer_and_respond_frame[OF f] s' show ?thesis by auto
  next
    case (Done r)
    with assms i show ?thesis by (simp add: resume_def)
  qed
qed

lemma step_disk:
  assumes "step E a s = Some s'"
  shows "dom (dirs (state s')) \<subseteq> dom (dirs (state s))
       \<and> dom (files (state s')) - staged_paths s' \<subseteq> dom (files (state s)) - staged_paths s"
proof (cases a)
  case (Arrive req)
  with assms have "s' = s\<lparr>tasks := tasks s @ [Received req]\<rparr>" by simp
  then show ?thesis by (auto simp: staged_paths_iff)
next
  case (Run i)
  with assms have "resume E i s = Some s'" by simp
  then show ?thesis by (rule resume_disk)
qed

lemma run_disk:
  assumes "run E sch s = Some s'"
  shows "dom (dirs (state s')) \<subseteq> dom (dirs (state s))
       \<and> dom (files (state s')) - staged_paths s' \<subseteq> dom (files (state s)) - staged_paths s"
  using assms
proof (induction sch arbitrary: s)
  case Nil
  then show ?case by simp
next
  case (Cons a sch)
  from Cons.prems obtain s1 where a: "step E a s = Some s1" and r: "run E sch s1 = Some s'"
    by (auto split: option.splits)
  from step_disk[OF a] Cons.IH[OF r] show ?case by blast
qed

lemma sum_list_update_less:
  fixes f :: "'a \<Rightarrow> nat"
  assumes "i < length xs" and "f y < f (xs ! i)"
  shows "sum_list (map f (xs[i := y])) < sum_list (map f xs)"
  using assms
proof (induction xs arbitrary: i)
  case Nil
  then show ?case by simp
next
  case (Cons x xs)
  then show ?case by (cases i) auto
qed

lemma resume_steps_left:
  assumes "resume E i s = Some s'"
  shows "sum_list (map steps_left (tasks s')) < sum_list (map steps_left (tasks s))
       \<and> length (tasks s') = length (tasks s)"
proof -
  from assms have i: "i < length (tasks s)"
    by (auto simp: resume_def split: if_splits)
  from assms i obtain t where t: "tasks s' = (tasks s)[i := t]"
    and l: "steps_left t < steps_left (tasks s ! i)"
    by (cases "tasks s ! i")
       (auto simp: resume_def split: if_splits prod.splits staged.splits)
  from sum_list_update_less[OF i l] t show ?thesis by simp
qed

lemma resume_enabled:
  assumes "lock_inv s" and "t \<in> set (tasks s)" and "steps_left t \<noteq> 0"
  shows "\<exists>i s'. resume E i s = Some s'"
proof (cases "locked (state s)")
  case True
  with assms(1) have "n_inferring s = 1" by (simp add: lock_inv_def)
  then have "filter in_thread (tasks s) \<noteq> []" by (auto simp: n_inferring_def)
  then obtain u where "u \<in> set (tasks s)" "in_thread u"
    by (auto simp: filter_empty_conv)
  then obtain i where "i < length (tasks s)" "in_thread (tasks s ! i)"
    by (auto simp: in_set_conv_nth)
  from resume_in_thread[OF this, of E] show ?thesis by blast
next
  case False
  from assms(2) obtain j where j: "j < length (tasks s)" "tasks s ! j = t"
    by (auto simp: in_set_conv_nth)
  with assms(3) False have "resume E j s \<noteq> None"
    by (cases t) (auto simp: resume_def split: prod.splits staged.splits)
  then show ?thesis by blast
qed

lemma can_finish:
  assumes "lock_inv s"
  shows "\<exists>sch s'. run E sch s = Some s' \<and> length (tasks s') = length (tasks s)
           \<and> (\<forall>t \<in> set (tasks s'). steps_left t = 0)"
  using assms
proof (induction "sum_list (map steps_left (tasks s))" arbitrary: s rule: less_induct)
  case less
  show ?case
  proof (cases "\<forall>t \<in> set (tasks s). steps_left t = 0")
    case True
    then have "run E [] s = Some s \<and> length (tasks s) = length (tasks s)
           \<and> (\<forall>t \<in> set (tasks s). steps_left t = 0)" by simp
    then show ?thesis by blast
  next
    case False
    then obtain t where "t \<in> set (tasks s)" "steps_left t \<noteq> 0" by blast
    from resume_enabled[OF less.prems this, of E] obtain i s1 where
      r: "resume E i s = Some s1" by blast
    note d = resume_steps_left[OF r]
    from resume_inv[OF r less.prems] have "lock_inv s1" .
    from less.hyps[OF d[THEN conjunct1] this] obtain sch s' where
      f: "run E sch s1 = Some s'" "length (tasks s') = length (tasks s1)"
         "\<forall>t \<in> set (tasks s'). steps_left t = 0"
      by blast
    from r f(1) have "run E (Run i # sch) s = Some s'" by simp
    with f d show ?thesis by metis
  qed
qed

lemma steps_left_0: "steps_left t = 0 \<longleftrightarrow> (\<exists>r. t = Done r)"
  by (cases t) simp_all

lemma all_done_no_staged:
  assumes "\<forall>t \<in> set (tasks s). \<exists>r. t = Done r"
  shows "staged_paths s = {}"
proof -
  have "y \<notin> staged_paths s" for y
  proof
    assume "y \<in> staged_paths s"
    then obtain t where t: "t \<in> set (tasks s)" "staged_path t = Some y"
      by (auto simp: staged_paths_iff)
    with assms obtain r where "t = Done r" by blast
    with t show False by simp
  qed
  then show ?thesis by blast
qed

lemma failing_infer_and_respond:
  "infer_and_respond failing_libs tmp w =
     (HTTPException 500
        (JObj [(''message'', JStr ''Error during OCR''),
               (''error'', JStr ''CUDA out of memory'')]),
      w\<lparr>ext := Suc (ext w),
        trace := trace w @
          [(CallEmptyCache, Returned), (CallTemporaryDirectory, Returned),
           (CallModelInfer
              \<lparr>prompt = DeepSeekOCR_prompt, image_file = tmp,
               output_path = ''/tmp/dir'' @ replicate (ext w) (CHR ''a''),
               base_size = 1024, image_size = 640, crop_mode = True, save_results = True,
               test_compress = True\<rparr>, Raised (Exception ''CUDA out of memory''))],
        dirs := (dirs w)(''/tmp/dir'' @ replicate (ext w) (CHR ''a'') := None),
        locked := False,
        files := (files w)(tmp := None)\<rparr>)"
  by (simp add: infer_and_respond_def DeepSeekOCR_infer_def infer_body_def model_infer_call_def
      cuda_empty_cache_def ext_call_def failing_libs_simps demo_libs_simps message_error_def)

lemma failing_before_lock_any:
  "before_lock failing_libs (D_ocr demo_upload) w = before_lock demo_libs (D_ocr demo_upload) w"
  by (simp add: before_lock_def failing_sniff_and_stage)

lemma demo_run_all_disk:
  "map_option (\<lambda>s. (tasks s, dom (files (state s)), dom (dirs (state s))))
     (run demo_libs demo_sched_all demo_start) =
     Some ([Done (JSONResponse (JObj [(''extracted_text'', JStr ''# A'')])),
            Done (JSONResponse (JObj [(''extracted_text'', JStr ''# A'')]))], {}, {})"
  by (simp add: demo_sched_all_def run_append demo_run resume_def demo_infer_and_respond)

lemma failing_solo_run:
  "map_option (\<lambda>s. (tasks s, dom (files (state s)), dom (dirs (state s))))
     (run failing_libs solo_sched demo_start) =
     Some ([Done (HTTPException 500
                    (JObj [(''message'', JStr ''Error during OCR''),
                           (''error'', JStr ''CUDA out of memory'')]))], {}, {})"
  by (simp add: solo_sched_def demo_start_def resume_def failing_before_lock_any
      demo_before_lock_any failing_infer_and_respond demo_world_def)

text \<open>
  C2.  Start the transformer service with no request and the lock free, and let
  requests arrive and handlers be resumed in any order.  In every state reached no
  directory is on disk that was not there at the start, and every file on disk that
  was not there at the start is the staged file of a request that stands before the
  lock or has its inference running: of a handler that has not returned.  A handler
  that has just been received takes its step, which creates no directory and either
  ends with a response, leaving no file behind (also when writing the staged file
  raises), or ends before the lock with its staged file as the only new file.  A
  handler whose inference is running takes its step whether \<open>model.infer\<close>
  returns or raises, and that step removes its staged file and leaves no new
  directory.  From every state reached the handlers can all be run to their
  responses, and then nothing is on disk but what was there at the start.  The
  scratch directory that \<open>DeepSeekOCR.infer\<close> creates is gone when it returns or
  raises.  The handlers of the classical service create no file and no directory.
\<close>

theorem no_temporary_file_remains:
  assumes "run E sch s0 = Some s" and "tasks s0 = []" and "\<not> locked (state s0)"
  shows "dom (dirs (state s)) \<subseteq> dom (dirs (state s0))
       \<and> dom (files (state s)) \<subseteq> dom (files (state s0)) \<union> staged_paths s
       \<and> (\<forall>i req. i < length (tasks s) \<and> tasks s ! i = Received req \<longrightarrow>
            (\<exists>st w. before_lock E req (state s) = (st, w) \<and> dirs w = dirs (state s)
               \<and> (case st of
                     Finished r \<Rightarrow>
                       step E (Run i) s = Some \<lparr>state = w, tasks = (tasks s)[i := Done r]\<rparr>
                       \<and> dom (files w) \<subseteq> dom (files (state s))
                   | Staged tmp \<Rightarrow>
                       step E (Run i) s = Some \<lparr>state = w, tasks = (tasks s)[i := AtLock tmp]\<rparr>
                       \<and> files w tmp \<noteq> None
                       \<and> dom (files w) \<subseteq> insert tmp (dom (files (state s))))))
       \<and> (\<forall>i tmp. i < length (tasks s) \<and> tasks s ! i = InThread tmp \<longrightarrow>
            (\<exists>r w. step E (Run i) s = Some \<lparr>state = w, tasks = (tasks s)[i := Done r]\<rparr>
               \<and> files w = (files (state s))(tmp := None)
               \<and> dom (dirs w) \<subseteq> dom (dirs (state s))))
       \<and> (\<exists>sch' s'. run E sch' s = Some s' \<and> length (tasks s') = length (tasks s)
            \<and> (\<forall>t \<in> set (tasks s'). \<exists>r. t = Done r)
            \<and> dom (files (state s')) \<subseteq> dom (files (state s0))
            \<and> dom (dirs (state s')) \<subseteq> dom (dirs (state s0)))
       \<and> (\<forall>p w d x. TemporaryDirectory E (empty_cache E (ext w)) = (Inr d, x) \<longrightarrow>
            dirs (snd (DeepSeekOCR_infer E p w)) d = None)
       \<and> (\<forall>L treq w. files (snd (tesseract_app L E treq w)) = files w
            \<and> dirs (snd (tesseract_app L E treq w)) = dirs w)"
proof -
  from assms(2) have e: "staged_paths s0 = {}" by (simp add: staged_paths_def)
  note d = run_disk[OF assms(1)]
  from d have 1: "dom (dirs (state s)) \<subseteq> dom (dirs (state s0))" by simp
  from d e have 2: "dom (files (state s)) \<subseteq> dom (files (state s0)) \<union> staged_paths s" by auto
  have 3: "\<forall>i req. i < length (tasks s) \<and> tasks s ! i = Received req \<longrightarrow>
            (\<exists>st w. before_lock E req (state s) = (st, w) \<and> dirs w = dirs (state s)
               \<and> (case st of
                     Finished r \<Rightarrow>
                       step E (Run i) s = Some \<lparr>state = w, tasks = (tasks s)[i := Done r]\<rparr>
                       \<and> dom (files w) \<subseteq> dom (files (state s))
                   | Staged tmp \<Rightarrow>
                       step E (Run i) s = Some \<lparr>state = w, tasks = (tasks s)[i := AtLock tmp]\<rparr>
                       \<and> files w tmp \<noteq> None
                       \<and> dom (files w) \<subseteq> insert tmp (dom (files (state s)))))"
  proof (intro allI impI)
    fix i req
    assume a: "i < length (tasks s) \<and> tasks s ! i = Received req"
    obtain st w where b: "before_lock E req (state s) = (st, w)" by force
    from before_lock_frame[OF b] a b
    have "dirs w = dirs (state s)
               \<and> (case st of
                     Finished r \<Rightarrow>
                       step E (Run i) s = Some \<lparr>state = w, tasks = (tasks s)[i := Done r]\<rparr>
                       \<and> dom (files w) \<subseteq> dom (files (state s))
                   | Staged tmp \<Rightarrow>
                       step E (Run i) s = Some \<lparr>state = w, tasks = (tasks s)[i := AtLock tmp]\<rparr>
                       \<and> files w tmp \<noteq> None
                       \<and> dom (files w) \<subseteq> insert tmp (dom (files (state s))))"
      by (cases st) (simp_all add: staged_frame_def resume_def)
    with b show "\<exists>st w. before_lock E req (state s) = (st, w) \<and> dirs w = dirs (state s)
               \<and> (case st of
                     Finished r \<Rightarrow>
                       step E (Run i) s = Some \<lparr>state = w, tasks = (tasks s)[i := Done r]\<rparr>
                       \<and> dom (files w) \<subseteq> dom (files (state s))
                   | Staged tmp \<Rightarrow>
                       step E (Run i) s = Some \<lparr>state = w, tasks = (tasks s)[i := AtLock tmp]\<rparr>
                       \<and> files w tmp \<noteq> None
                       \<and> dom (files w) \<subseteq> insert tmp (dom (files (state s))))"
      by blast
  qed
  have 4: "\<forall>i tmp. i < length (tasks s) \<and> tasks s ! i = InThread tmp \<longrightarrow>
            (\<exists>r w. step E (Run i) s = Some \<lparr>state = w, tasks = (tasks s)[i := Done r]\<rparr>
               \<and> files w = (files (state s))(tmp := None)
               \<and> dom (dirs w) \<subseteq> dom (dirs (state s)))"
  proof (intro allI impI)
    fix i tmp
    assume a: "i < length (tasks s) \<and> tasks s ! i = InThread tmp"
    obtain r w where f: "infer_and_respond E tmp (state s) = (r, w)" by force
    with a have "step E (Run i) s = Some \<lparr>state = w, tasks = (tasks s)[i := Done r]\<rparr>"
      by (simp add: resume_def)
    with infer_and_respond_frame[OF f]
    show "\<exists>r w. step E (Run i) s = Some \<lparr>state = w, tasks = (tasks s)[i := Done r]\<rparr>
               \<and> files w = (files (state s))(tmp := None)
               \<and> dom (dirs w) \<subseteq> dom (dirs (state s))"
      by blast
  qed
  have 5: "\<exists>sch' s'. run E sch' s = Some s' \<and> length (tasks s') = length (tasks s)
            \<and> (\<forall>t \<in> set (tasks s'). \<exists>r. t = Done r)
            \<and> dom (files (state s')) \<subseteq> dom (files (state s0))
            \<and> dom (dirs (state s')) \<subseteq> dom (dirs (state s0))"
  proof -
    from assms(2,3) have "lock_inv s0" by (simp add: lock_inv_def n_inferring_def)
    from run_inv[OF assms(1) this] have "lock_inv s" .
    from can_finish[OF this, of E] obtain sch' s' where
      f: "run E sch' s = Some s'" "length (tasks s') = length (tasks s)"
      and z: "\<forall>t \<in> set (tasks s'). steps_left t = 0"
      by blast
    from z have dn: "\<forall>t \<in> set (tasks s'). \<exists>r. t = Done r" by (simp add: steps_left_0)
    from all_done_no_staged[OF dn] have n: "staged_paths s' = {}" .
    from assms(1) f(1) have "run E (sch @ sch') s0 = Some s'" by (simp add: run_append)
    from run_disk[OF this] e n
    have "dom (files (state s')) \<subseteq> dom (files (state s0))"
      and "dom (dirs (state s')) \<subseteq> dom (dirs (state s0))"
      by auto
    with f dn show ?thesis by blast
  qed
  have 6: "\<forall>p w d x. TemporaryDirectory E (empty_cache E (ext w)) = (Inr d, x) \<longrightarrow>
            dirs (snd (DeepSeekOCR_infer E p w)) d = None"
    using DeepSeekOCR_infer_removes_dir[of E] by blast
  have 7: "\<forall>L treq w. files (snd (tesseract_app L E treq w)) = files w
            \<and> dirs (snd (tesseract_app L E treq w)) = dirs w"
    using tesseract_app_frame[of _ E] by blast
  from 1 2 3 4 5 6 7 show ?thesis by (intro conjI)
qed

theorem no_temporary_file_remains_witness:
  "tasks demo_start = [] \<and> \<not> locked (state demo_start)
   \<and> map_option (\<lambda>s. (tasks s, dom (files (state s)), staged_paths s, dom (dirs (state s))))
       (run demo_libs demo_sched demo_start) =
       Some ([InThread ''/tmp/tmp.png'', AtLock ''/tmp/tmpa.png''],
             {''/tmp/tmp.png'', ''/tmp/tmpa.png''}, {''/tmp/tmp.png'', ''/tmp/tmpa.png''}, {})
   \<and> map_option (\<lambda>s. (tasks s, dom (files (state s)), dom (dirs (state s))))
       (run demo_libs demo_sched_all demo_start) =
       Some ([Done (JSONResponse (JObj [(''extracted_text'', JStr ''# A'')])),
              Done (JSONResponse (JObj [(''extracted_text'', JStr ''# A'')]))], {}, {})
   \<and> map_option (\<lambda>s. (tasks s, dom (files (state s)), dom (dirs (state s))))
       (run failing_libs solo_sched demo_start) =
       Some ([Done (HTTPException 500
                      (JObj [(''message'', JStr ''Error during OCR''),
                             (''error'', JStr ''CUDA out of memory'')]))], {}, {})"
proof -
  have a: "tasks demo_start = []" and b: "\<not> locked (state demo_start)"
    by (simp_all add: demo_start_def demo_world_def)
  let ?S = "\<lparr>state = \<lparr>ext = 2,
              trace = [(CallRead, Returned), (CallImageOpen demo_png, Returned),
                       (CallVerify ''PNG'', Returned), (CallNamedTemporaryFile ''.png'', Returned),
                       (CallWrite ''/tmp/tmp.png'', Returned),
                       (CallRead, Returned), (CallImageOpen demo_png, Returned),
                       (CallVerify ''PNG'', Returned), (CallNamedTemporaryFile ''.png'', Returned),
                       (CallWrite ''/tmp/tmpa.png'', Returned)],
              files = [''/tmp/tmp.png'' \<mapsto> demo_png, ''/tmp/tmpa.png'' \<mapsto> demo_png],
              dirs = Map.empty, locked = True\<rparr>,
           tasks = [InThread ''/tmp/tmp.png'', AtLock ''/tmp/tmpa.png'']\<rparr> :: (string, nat) system"
  note t = no_temporary_file_remains[OF demo_run a b]
  from t[THEN conjunct1] have d: "dom (dirs (state ?S)) = {}"
    by (simp add: demo_start_def demo_world_def)
  have p: "staged_paths ?S = {''/tmp/tmp.png'', ''/tmp/tmpa.png''}"
    by (auto simp: staged_paths_def)
  from t[THEN conjunct2, THEN conjunct1] p
  have f: "dom (files (state ?S)) \<subseteq> {''/tmp/tmp.png'', ''/tmp/tmpa.png''}"
    by (simp add: demo_start_def demo_world_def)
  have g: "{''/tmp/tmp.png'', ''/tmp/tmpa.png''} \<subseteq> dom (files (state ?S))"
    by simp
  from f g have "dom (files (state ?S)) = {''/tmp/tmp.png'', ''/tmp/tmpa.png''}"
    by (rule equalityI)
  with a b d p show ?thesis
    by (simp add: demo_run demo_run_all_disk failing_solo_run)
qed

section \<open>Buffers that are not images\<close>

lemma status_code_sniff_error: "status_code (sniff_error e) = Some 400"
  by (cases e) (simp_all add: sniff_error_def)

lemma opened_then_ocr_raises:
  assumes "Image_open E (ext w) data = (Inr img, x1)"
    and "image_to_string E x1 img lang = (Inl e, x2)"
    and "lang' = lang"
  shows "(case ext_call (CallImageOpen data) (\<lambda>x. Image_open E x data)
                 (w\<lparr>trace := trace w @ [ev]\<rparr>) of
            (Inl e', w2) \<Rightarrow> (HTTPException 400 (message_error m e'), w2)
          | (Inr img', w2) \<Rightarrow>
              (case ocr_or_500 E img' lang' w2 of
                 (Inl failure, w3) \<Rightarrow> (failure, w3)
               | (Inr extracted_text, w3) \<Rightarrow> k extracted_text w3))
         = (HTTPException 500 (message_error ''Error during OCR'' e),
            w\<lparr>ext := x2,
              trace := trace w @ [ev, (CallImageOpen data, Returned),
                                  (CallImageToString img lang, Raised e)]\<rparr>)"
  using assms by (simp add: ext_call_def ocr_or_500_def)

lemma opened_then_verify_raises:
  assumes "Image_open E (ext w) data = (Inr img, x1)"
    and "verify E img = Inl e"
  shows "after_staging E (sniff_and_stage E (Inr data, w\<lparr>trace := trace w @ [ev]\<rparr>))
         = Some (sniff_error e,
                 w\<lparr>ext := x1,
                   trace := trace w @ [ev, (CallImageOpen data, Returned),
                                       (CallVerify img, Raised e)]\<rparr>)"
  using assms
  by (simp add: after_staging_def sniff_and_stage_def open_verify_def ext_call_def pure_call_def)

lemma lazy_libs_simps:
  "Image_open lazy_libs x data =
     (if png_header data then Inr data
      else Inl (UnidentifiedImageError ''cannot identify image file''), x)"
  "verify lazy_libs img =
     (if complete_png img then Inr () else Inl (Exception ''Truncated File Read''))"
  "image_to_string lazy_libs x img lang =
     (if complete_png img then Inr (''text in '' @ lang)
      else Inl (Exception ''image file is truncated''), x)"
  by (simp_all add: lazy_libs_def)

lemma truncated_png_header: "png_header truncated_png"
  by (simp add: png_header_def truncated_png_def png_signature_def)

lemma truncated_png_incomplete: "\<not> complete_png truncated_png"
  by (simp add: complete_png_def truncated_png_def png_end_def)

text \<open>
  C4 does not hold of the classical service.  A buffer that \<open>Image.open\<close>
  accepts has not been decoded yet: when decoding it fails inside
  \<open>image_to_string\<close>, each of the three classical OCR routes answers 500 with
  the message \<open>Error during OCR\<close>, where the claim demands 400.  The transformer
  service calls \<open>image.verify()\<close> after \<open>Image.open\<close>: when that raises on the
  same buffer, each of its three OCR routes answers 400 and does not call the engine.
\<close>

theorem undecodable_image_500:
  assumes "Image_open E (ext w) data = (Inr img, x1)"
    and "image_to_string E x1 img lang = (Inl e, x2)"
  shows "(\<forall>farsi lf f. Language_getattr L ''Farsi'' = Some farsi
             \<and> val (case lf of None \<Rightarrow> farsi | Some l \<Rightarrow> l) = lang \<and> read f = Inr data \<longrightarrow>
            perform_ocr_tesseract L E f lf w =
              (HTTPException 500 (message_error ''Error during OCR'' e),
               w\<lparr>ext := x2,
                 trace := trace w @ [(CallRead, Returned), (CallImageOpen data, Returned),
                                     (CallImageToString img lang, Raised e)]\<rparr>))
       \<and> (\<forall>farsi lf s. Language_getattr L ''Farsi'' = Some farsi
             \<and> val (case lf of None \<Rightarrow> farsi | Some l \<Rightarrow> l) = lang \<and> b64decode E s = Inr data \<longrightarrow>
            perform_ocr_base46_tesseract L E s lf w =
              (HTTPException 500 (message_error ''Error during OCR'' e),
               w\<lparr>ext := x2,
                 trace := trace w @ [(CallB64decode s, Returned), (CallImageOpen data, Returned),
                                     (CallImageToString img lang, Raised e)]\<rparr>))
       \<and> (\<forall>s. lang \<in> val ` set L \<and> b64decode E s = Inr data \<longrightarrow>
            perform_ocr_base64_json_tesseract L E \<lparr>base64_string = s, language = lang\<rparr> w =
              (HTTPException 500 (message_error ''Error during OCR'' e),
               w\<lparr>ext := x2,
                 trace := trace w @ [(CallB64decode s, Returned), (CallImageOpen data, Returned),
                                     (CallImageToString img lang, Raised e)]\<rparr>))
       \<and> (\<forall>e'. verify E img = Inl e' \<longrightarrow>
            status_code (sniff_error e') = Some 400
            \<and> (\<forall>f. read f = Inr data \<longrightarrow>
                  deepseek_app E (D_ocr f) w =
                    Some (sniff_error e',
                          w\<lparr>ext := x1,
                            trace := trace w @ [(CallRead, Returned), (CallImageOpen data, Returned),
                                                (CallVerify img, Raised e')]\<rparr>))
            \<and> (\<forall>s. b64decode E s = Inr data \<longrightarrow>
                  deepseek_app E (D_ocr_base64 s) w =
                    Some (sniff_error e',
                          w\<lparr>ext := x1,
                            trace := trace w @ [(CallB64decode s, Returned),
                                                (CallImageOpen data, Returned),
                                                (CallVerify img, Raised e')]\<rparr>)
                \<and> deepseek_app E (D_ocr_base64_json \<lparr>base64_string = s\<rparr>) w =
                    Some (sniff_error e',
                          w\<lparr>ext := x1,
                            trace := trace w @ [(CallB64decode s, Returned),
                                                (CallImageOpen data, Returned),
                                                (CallVerify img, Raised e')]\<rparr>)))"
proof -
  note o = opened_then_ocr_raises[OF assms]
  note o' = o[OF refl]
  have 1: "\<forall>farsi lf f. Language_getattr L ''Farsi'' = Some farsi
             \<and> val (case lf of None \<Rightarrow> farsi | Some l \<Rightarrow> l) = lang \<and> read f = Inr data \<longrightarrow>
            perform_ocr_tesseract L E f lf w =
              (HTTPException 500 (message_error ''Error during OCR'' e),
               w\<lparr>ext := x2,
                 trace := trace w @ [(CallRead, Returned), (CallImageOpen data, Returned),
                                     (CallImageToString img lang, Raised e)]\<rparr>)"
  proof (intro allI impI)
    fix farsi lf and f :: UploadFile
    assume a: "Language_getattr L ''Farsi'' = Some farsi
             \<and> val (case lf of None \<Rightarrow> farsi | Some l \<Rightarrow> l) = lang \<and> read f = Inr data"
    then have "val (case lf of None \<Rightarrow> farsi | Some l \<Rightarrow> l) = lang" by simp
    note k = o[OF this]
    from a show "perform_ocr_tesseract L E f lf w =
              (HTTPException 500 (message_error ''Error during OCR'' e),
               w\<lparr>ext := x2,
                 trace := trace w @ [(CallRead, Returned), (CallImageOpen data, Returned),
                                     (CallImageToString img lang, Raised e)]\<rparr>)"
      by (simp add: perform_ocr_tesseract_def pure_call_def Let_def k)
  qed
  have 2: "\<forall>farsi lf s. Language_getattr L ''Farsi'' = Some farsi
             \<and> val (case lf of None \<Rightarrow> farsi | Some l \<Rightarrow> l) = lang \<and> b64decode E s = Inr data \<longrightarrow>
            perform_ocr_base46_tesseract L E s lf w =
              (HTTPException 500 (message_error ''Error during OCR'' e),
               w\<lparr>ext := x2,
                 trace := trace w @ [(CallB64decode s, Returned), (CallImageOpen data, Returned),
                                     (CallImageToString img lang, Raised e)]\<rparr>)"
  proof (intro allI impI)
    fix farsi lf s
    assume a: "Language_getattr L ''Farsi'' = Some farsi
             \<and> val (case lf of None \<Rightarrow> farsi | Some l \<Rightarrow> l) = lang \<and> b64decode E s = Inr data"
    then have "val (case lf of None \<Rightarrow> farsi | Some l \<Rightarrow> l) = lang" by simp
    note k = o[OF this]
    from a show "perform_ocr_base46_tesseract L E s lf w =
              (HTTPException 500 (message_error ''Error during OCR'' e),
               w\<lparr>ext := x2,
                 trace := trace w @ [(CallB64decode s, Returned), (CallImageOpen data, Returned),
                                     (CallImageToString img lang, Raised e)]\<rparr>)"
      by (simp add: perform_ocr_base46_tesseract_def pure_call_def Let_def k)
  qed
  have 3: "\<forall>s. lang \<in> val ` set L \<and> b64decode E s = Inr data \<longrightarrow>
            perform_ocr_base64_json_tesseract L E \<lparr>base64_string = s, language = lang\<rparr> w =
              (HTTPException 500 (message_error ''Error during OCR'' e),
               w\<lparr>ext := x2,
                 trace := trace w @ [(CallB64decode s, Returned), (CallImageOpen data, Returned),
                                     (CallImageToString img lang, Raised e)]\<rparr>)"
  proof (intro allI impI)
    fix s
    assume a: "lang \<in> val ` set L \<and> b64decode E s = Inr data"
    then have "Language_call L lang \<noteq> None" by (simp add: Language_call_None)
    then obtain m where "Language_call L lang = Some m" by blast
    with a show "perform_ocr_base64_json_tesseract L E \<lparr>base64_string = s, language = lang\<rparr> w =
              (HTTPException 500 (message_error ''Error during OCR'' e),
               w\<lparr>ext := x2,
                 trace := trace w @ [(CallB64decode s, Returned), (CallImageOpen data, Returned),
                                     (CallImageToString img lang, Raised e)]\<rparr>)"
      by (simp add: perform_ocr_base64_json_tesseract_def pure_call_def o')
  qed
  have 4: "\<forall>e'. verify E img = Inl e' \<longrightarrow>
            status_code (sniff_error e') = Some 400
            \<and> (\<forall>f. read f = Inr data \<longrightarrow>
                  deepseek_app E (D_ocr f) w =
                    Some (sniff_error e',
                          w\<lparr>ext := x1,
                            trace := trace w @ [(CallRead, Returned), (CallImageOpen data, Returned),
                                                (CallVerify img, Raised e')]\<rparr>))
            \<and> (\<forall>s. b64decode E s = Inr data \<longrightarrow>
                  deepseek_app E (D_ocr_base64 s) w =
                    Some (sniff_error e',
                          w\<lparr>ext := x1,
                            trace := trace w @ [(CallB64decode s, Returned),
                                                (CallImageOpen data, Returned),
                                                (CallVerify img, Raised e')]\<rparr>)
                \<and> deepseek_app E (D_ocr_base64_json \<lparr>base64_string = s\<rparr>) w =
                    Some (sniff_error e',
                          w\<lparr>ext := x1,
                            trace := trace w @ [(CallB64decode s, Returned),
                                                (CallImageOpen data, Returned),
                                                (CallVerify img, Raised e')]\<rparr>))"
  proof (intro allI impI)
    fix e'
    assume v: "verify E img = Inl e'"
    note k = opened_then_verify_raises[OF assms(1) v]
    show "status_code (sniff_error e') = Some 400
            \<and> (\<forall>f. read f = Inr data \<longrightarrow>
                  deepseek_app E (D_ocr f) w =
                    Some (sniff_error e',
                          w\<lparr>ext := x1,
                            trace := trace w @ [(CallRead, Returned), (CallImageOpen data, Returned),
                                                (CallVerify img, Raised e')]\<rparr>))
            \<and> (\<forall>s. b64decode E s = Inr data \<longrightarrow>
                  deepseek_app E (D_ocr_base64 s) w =
                    Some (sniff_error e',
                          w\<lparr>ext := x1,
                            trace := trace w @ [(CallB64decode s, Returned),
                                                (CallImageOpen data, Returned),
                                                (CallVerify img, Raised e')]\<rparr>)
                \<and> deepseek_app E (D_ocr_base64_json \<lparr>base64_string = s\<rparr>) w =
                    Some (sniff_error e',
                          w\<lparr>ext := x1,
                            trace := trace w @ [(CallB64decode s, Returned),
                                                (CallImageOpen data, Returned),
                                                (CallVerify img, Raised e')]\<rparr>))"
      by (simp add: status_code_sniff_error deepseek_app_def before_lock_def pure_call_def k)
  qed
  from 1 2 3 4 show ?thesis by (intro conjI)
qed

theorem undecodable_image_500_witness:
  "Image_open lazy_libs (ext lazy_world) truncated_png = (Inr truncated_png, 0)
   \<and> image_to_string lazy_libs 0 truncated_png ''fas'' =
       (Inl (Exception ''image file is truncated''), 0)
   \<and> verify lazy_libs truncated_png = Inl (Exception ''Truncated File Read'')
   \<and> fst (tesseract_app demo_Language lazy_libs (T_ocr truncated_upload None) lazy_world) =
       HTTPException 500
         (JObj [(''message'', JStr ''Error during OCR''),
                (''error'', JStr ''image file is truncated'')])
   \<and> map_option fst (deepseek_app lazy_libs (D_ocr truncated_upload) lazy_world) =
       Some (HTTPException 400
               (JObj [(''message'', JStr ''Could not process the uploaded file.''),
                      (''error'', JStr ''Truncated File Read'')]))"
proof -
  have a: "Image_open lazy_libs (ext lazy_world) truncated_png = (Inr truncated_png, 0)"
    by (simp add: lazy_libs_simps truncated_png_header lazy_world_def)
  have b: "image_to_string lazy_libs 0 truncated_png ''fas'' =
       (Inl (Exception ''image file is truncated''), 0)"
    by (simp add: lazy_libs_simps truncated_png_incomplete)
  have v: "verify lazy_libs truncated_png = Inl (Exception ''Truncated File Read'')"
    by (simp add: lazy_libs_simps truncated_png_incomplete)
  have r: "read truncated_upload = Inr truncated_png"
    by (simp add: truncated_upload_def)
  note t = undecodable_image_500[OF a b, of demo_Language]
  from t[THEN conjunct1, rule_format, of "\<lparr>name = ''Farsi'', val = ''fas''\<rparr>" None truncated_upload]
    demo_Farsi r
  have c: "fst (tesseract_app demo_Language lazy_libs (T_ocr truncated_upload None) lazy_world) =
       HTTPException 500
         (JObj [(''message'', JStr ''Error during OCR''),
                (''error'', JStr ''image file is truncated'')])"
    by (simp add: tesseract_app_def message_error_def)
  from t[THEN conjunct2, THEN conjunct2, THEN conjunct2, rule_format, OF v,
         THEN conjunct2, THEN conjunct1, rule_format, OF r]
  have d: "map_option fst (deepseek_app lazy_libs (D_ocr truncated_upload) lazy_world) =
       Some (HTTPException 400
               (JObj [(''message'', JStr ''Could not process the uploaded file.''),
                      (''error'', JStr ''Truncated File Read'')]))"
    by (simp add: sniff_error_def message_error_def)
  from a b v c d show ?thesis by (intro conjI)
qed

section \<open>Failure responses and the exception's text\<close>















section \<open>At most one inference at a time\<close>

lemma open_verify_no_engine:
  assumes "open_verify E (r0, w) = (r, w')"
  shows "filter is_engine_call (trace w') = filter is_engine_call (trace w)"
  using assms
  by (auto simp: open_verify_def pure_call_def ext_call_def is_engine_call_def
      split: sum.splits prod.splits)

lemma stage_file_no_engine:
  assumes "stage_file E data sfx w = (st, w')"
  shows "filter is_engine_call (trace w') = filter is_engine_call (trace w)"
  using assms
  by (auto simp: stage_file_def ext_call_def Let_def is_engine_call_def
      split: prod.splits sum.splits)

lemma sniff_and_stage_no_engine:
  assumes "sniff_and_stage E (r0, w) = (st, w')"
  shows "filter is_engine_call (trace w') = filter is_engine_call (trace w)"
proof -
  obtain r1 w1 where o: "open_verify E (r0, w) = (r1, w1)" by force
  note f = open_verify_no_engine[OF o]
  show ?thesis
  proof (cases r1)
    case (Inl e)
    with assms o f show ?thesis by (auto simp: sniff_and_stage_def)
  next
    case (Inr p)
    obtain data sfx where p: "p = (data, sfx)" by force
    from assms o Inr p have "stage_file E data sfx w1 = (st, w')"
      by (simp add: sniff_and_stage_def)
    from stage_file_no_engine[OF this] f show ?thesis by simp
  qed
qed

lemma before_lock_no_engine:
  assumes "before_lock E req w = (st, w')"
  shows "filter is_engine_call (trace w') = filter is_engine_call (trace w)"
proof (cases req)
  case (D_file_to_base64 f)
  with assms show ?thesis
    by (auto simp: before_lock_def file_to_base64_def pure_call_def is_engine_call_def
        split: sum.splits)
next
  case (D_ocr f)
  with assms have "sniff_and_stage E
      (read f, w\<lparr>trace := trace w @ [(CallRead, outcome_of (read f))]\<rparr>) = (st, w')"
    by (simp add: before_lock_def pure_call_def)
  from sniff_and_stage_no_engine[OF this] show ?thesis by (simp add: is_engine_call_def)
next
  case (D_ocr_base64 s)
  with assms have "sniff_and_stage E
      (b64decode E s,
       w\<lparr>trace := trace w @ [(CallB64decode s, outcome_of (b64decode E s))]\<rparr>) = (st, w')"
    by (simp add: before_lock_def pure_call_def)
  from sniff_and_stage_no_engine[OF this] show ?thesis by (simp add: is_engine_call_def)
next
  case (D_ocr_base64_json request)
  with assms have "sniff_and_stage E
      (b64decode E (base64_string request),
       w\<lparr>trace := trace w @ [(CallB64decode (base64_string request),
                                outcome_of (b64decode E (base64_string request)))]\<rparr>) = (st, w')"
    by (simp add: before_lock_def pure_call_def)
  from sniff_and_stage_no_engine[OF this] show ?thesis by (simp add: is_engine_call_def)
qed

lemma resume_engine_call:
  assumes "resume E i s = Some s'"
    and "filter is_engine_call (trace (state s')) \<noteq> filter is_engine_call (trace (state s))"
  shows "i < length (tasks s) \<and> in_thread (tasks s ! i)"
proof -
  from assms(1) have i: "i < length (tasks s)"
    by (auto simp: resume_def split: if_splits)
  show ?thesis
  proof (cases "tasks s ! i")
    case (Received req)
    obtain st w where b: "before_lock E req (state s) = (st, w)" by force
    with assms(1) i Received have "state s' = w"
      by (cases st) (auto simp: resume_def)
    with before_lock_no_engine[OF b] assms(2) show ?thesis by simp
  next
    case (AtLock tmp)
    with assms(1) i have "trace (state s') = trace (state s)"
      by (auto simp: resume_def split: if_splits)
    with assms(2) show ?thesis by simp
  next
    case (InThread tmp)
    with i show ?thesis by simp
  next
    case (Done r)
    with assms(1) i show ?thesis by (simp add: resume_def)
  qed
qed

text \<open>
  C1.  Start the transformer service with no request and the lock free, and let
  requests arrive and handlers be resumed in any order.  In every state reached, at
  most one handler has its inference running, and the lock is held exactly when one
  has.  A step that calls the engine is a step of a handler whose inference is
  running, taken while the lock is held: every call of \<open>model.infer\<close> from the
  three OCR handlers happens under the lock.  And the handler whose inference is
  running can always take its next step, which, whether \<open>model.infer\<close> returned
  or raised, leaves the lock free and no inference running.
\<close>

theorem mutual_exclusion:
  assumes "run E sch s0 = Some s" and "tasks s0 = []" and "\<not> locked (state s0)"
  shows "n_inferring s \<le> 1
       \<and> (locked (state s) \<longleftrightarrow> n_inferring s = 1)
       \<and> (\<forall>i s'. step E (Run i) s = Some s'
             \<and> filter is_engine_call (trace (state s')) \<noteq> filter is_engine_call (trace (state s))
             \<longrightarrow> i < length (tasks s) \<and> in_thread (tasks s ! i) \<and> locked (state s))
       \<and> (\<forall>i. i < length (tasks s) \<and> in_thread (tasks s ! i) \<longrightarrow>
             (\<exists>s'. step E (Run i) s = Some s' \<and> \<not> locked (state s') \<and> n_inferring s' = 0))"
proof -
  from assms(2,3) have "lock_inv s0" by (simp add: lock_inv_def n_inferring_def)
  from run_inv[OF assms(1) this] have inv: "lock_inv s" .
  then have 1: "n_inferring s \<le> 1" and 2: "locked (state s) \<longleftrightarrow> n_inferring s = 1"
    by (simp_all add: lock_inv_def split: if_splits)
  have 3: "\<forall>i s'. step E (Run i) s = Some s'
             \<and> filter is_engine_call (trace (state s')) \<noteq> filter is_engine_call (trace (state s))
             \<longrightarrow> i < length (tasks s) \<and> in_thread (tasks s ! i) \<and> locked (state s)"
    using resume_engine_call[of E _ s] in_thread_locked[OF inv] by auto
  have 4: "\<forall>i. i < length (tasks s) \<and> in_thread (tasks s ! i) \<longrightarrow>
             (\<exists>s'. step E (Run i) s = Some s' \<and> \<not> locked (state s') \<and> n_inferring s' = 0)"
  proof (intro allI impI)
    fix i
    assume a: "i < length (tasks s) \<and> in_thread (tasks s ! i)"
    with resume_in_thread[of i s E] obtain tmp r w where
      f: "infer_and_respond E tmp (state s) = (r, w)"
      and r: "resume E i s = Some \<lparr>state = w, tasks = (tasks s)[i := Done r]\<rparr>"
      by blast
    let ?s' = "\<lparr>state = w, tasks = (tasks s)[i := Done r]\<rparr>"
    from resume_inv[OF r inv] have "lock_inv ?s'" .
    moreover from infer_and_respond_unlocked[OF f] have "\<not> locked (state ?s')" by simp
    ultimately have "n_inferring ?s' = 0" by (simp add: lock_inv_def)
    with r \<open>\<not> locked (state ?s')\<close>
    show "\<exists>s'. step E (Run i) s = Some s' \<and> \<not> locked (state s') \<and> n_inferring s' = 0"
      by auto
  qed
  from 1 2 3 4 show ?thesis by blast
qed

theorem mutual_exclusion_witness:
  "tasks demo_start = [] \<and> \<not> locked (state demo_start)
   \<and> map_option tasks (run demo_libs demo_sched demo_start) =
       Some [InThread ''/tmp/tmp.png'', AtLock ''/tmp/tmpa.png'']
   \<and> map_option n_inferring (run demo_libs demo_sched demo_start) = Some 1
   \<and> map_option (\<lambda>s. locked (state s)) (run demo_libs demo_sched demo_start) = Some True
   \<and> map_option (step demo_libs (Run 1)) (run demo_libs demo_sched demo_start) = Some None
   \<and> map_option (\<lambda>s. map_option (\<lambda>s'. (tasks s', locked (state s'), n_inferring s'))
                        (step demo_libs (Run 0) s))
        (run demo_libs demo_sched demo_start) =
       Some (Some ([Done (JSONResponse (JObj [(''extracted_text'', JStr ''# A'')])),
                    AtLock ''/tmp/tmpa.png''], False, 0))"
proof -
  have a: "tasks demo_start = []" and b: "\<not> locked (state demo_start)"
    by (simp_all add: demo_start_def demo_world_def)
  let ?S = "\<lparr>state = \<lparr>ext = 2,
              trace = [(CallRead, Returned), (CallImageOpen demo_png, Returned),
                       (CallVerify ''PNG'', Returned), (CallNamedTemporaryFile ''.png'', Returned),
                       (CallWrite ''/tmp/tmp.png'', Returned),
                       (CallRead, Returned), (CallImageOpen demo_png, Returned),
                       (CallVerify ''PNG'', Returned), (CallNamedTemporaryFile ''.png'', Returned),
                       (CallWrite ''/tmp/tmpa.png'', Returned)],
              files = [''/tmp/tmp.png'' \<mapsto> demo_png, ''/tmp/tmpa.png'' \<mapsto> demo_png],
              dirs = Map.empty, locked = True\<rparr>,
           tasks = [InThread ''/tmp/tmp.png'', AtLock ''/tmp/tmpa.png'']\<rparr> :: (string, nat) system"
  from mutual_exclusion[OF demo_run a b]
  have "locked (state ?S) \<longleftrightarrow> n_inferring ?S = 1" by blast
  moreover have "locked (state ?S)" by simp
  ultimately have n: "n_inferring ?S = 1" by blast
  have f: "fst (infer_and_respond demo_libs ''/tmp/tmp.png'' w) =
             JSONResponse (JObj [(''extracted_text'', JStr ''# A'')])
           \<and> \<not> locked (snd (infer_and_respond demo_libs ''/tmp/tmp.png'' w))" for w :: "(string, nat) world"
    by (simp add: infer_and_respond_def DeepSeekOCR_infer_def infer_body_def model_infer_call_def
        open_read_def pure_call_def cuda_empty_cache_def ext_call_def demo_libs_simps
        split: prod.splits)
  obtain r w where i: "infer_and_respond demo_libs ''/tmp/tmp.png'' (state ?S) = (r, w)"
    by force
  with f[of "state ?S"] have r: "r = JSONResponse (JObj [(''extracted_text'', JStr ''# A'')])"
    and w: "\<not> locked w"
    by simp_all
  from i have s0: "step demo_libs (Run 0) ?S =
      Some \<lparr>state = w, tasks = [Done r, AtLock ''/tmp/tmpa.png'']\<rparr>"
    by (simp add: resume_def)
  have s1: "step demo_libs (Run 1) ?S = None"
    by (simp add: resume_def)
  show ?thesis
    using a b n r w s0 s1
    by (simp add: demo_run n_inferring_def)
qed

end
